theory Spec2Isabelle
  imports Main
begin

section \<open>Values of the remote API\<close>

text \<open>
  A RemoteEntity is whatever JSON the remote API sends back; the program reads a few of
  its fields by name. \<open>JUndefined\<close> is JavaScript's \<open>undefined\<close>: the value of a
  missing field and the value \<open>handleError\<close> yields for a swallowed failure. A number is
  held as the text JavaScript prints for it, which is all the program can do with one
  (interpolate it into a template literal, or compare it with \<open>===\<close>). An object is
  an association list in the order of its keys.
\<close>

datatype json =
    JUndefined
  | JNull
  | JBool bool
  | JNum string
  | JStr string
  | JArr "json list"
  | JObj "(string \<times> json) list"

text \<open>
  What a JavaScript expression can throw in this program, besides the failure of a
  remote call: \<open>RemoteCallFailure\<close> is the rejection of \<open>rp\<close> (a StatusCodeError
  carries the status code, a transport failure carries none), \<open>SyntaxError\<close> is thrown by
  \<open>JSON.parse\<close>, \<open>TypeError\<close> by reading a property of \<open>undefined\<close> or \<open>null\<close> or by
  calling something that is not a function, \<open>FileError\<close> is the rejection of
  \<open>readFileAsync\<close> or \<open>writeFileAsync\<close>.
\<close>

datatype error =
    RemoteCallFailure "nat option" string
  | SyntaxError
  | TypeError
  | FileError string

fun statusCode :: "error \<Rightarrow> nat option" where
  "statusCode (RemoteCallFailure c b) = c"
| "statusCode SyntaxError = None"
| "statusCode TypeError = None"
| "statusCode (FileError m) = None"

text \<open>The field \<open>k\<close> of an object, \<open>undefined\<close> when the object has none.\<close>

definition own_property :: "(string \<times> json) list \<Rightarrow> string \<Rightarrow> json" where
  "own_property kvs k = (case map_of kvs k of None \<Rightarrow> JUndefined | Some v \<Rightarrow> v)"

text \<open>
  \<open>v.k\<close> for the keys this program reads (\<open>name\<close>, \<open>id\<close>, \<open>client_id\<close>,
  \<open>client_secret\<close>, \<open>enabled_clients\<close>, \<open>strategy\<close>): a TypeError on \<open>undefined\<close> and
  \<open>null\<close>, the field or \<open>undefined\<close> on an object, \<open>undefined\<close> on every other value.
\<close>

fun getprop :: "json \<Rightarrow> string \<Rightarrow> error + json" where
  "getprop JUndefined k = Inl TypeError"
| "getprop JNull k = Inl TypeError"
| "getprop (JObj kvs) k = Inr (own_property kvs k)"
| "getprop v k = Inr JUndefined"

text \<open>Sequencing of steps that can throw: the first error ends the evaluation.\<close>

definition and_then :: "error + 'a \<Rightarrow> ('a \<Rightarrow> error + 'b) \<Rightarrow> error + 'b" where
  "and_then m f = (case m of Inl e \<Rightarrow> Inl e | Inr x \<Rightarrow> f x)"

text \<open>
  The string a template literal \<open>`${v}`\<close> puts in for a value. An array prints its
  elements separated by commas, \<open>undefined\<close> and \<open>null\<close> elements as nothing. An object
  prints as \<open>[object Object]\<close> through \<open>Object.prototype.toString\<close>; when it has a field
  \<open>toString\<close> of its own (never a function in a JSON value) there is nothing to call
  and the conversion throws a TypeError.
\<close>

fun ToString :: "json \<Rightarrow> error + string"
  and join_elements :: "json list \<Rightarrow> error + string" where
  "ToString JUndefined = Inr ''undefined''"
| "ToString JNull = Inr ''null''"
| "ToString (JBool b) = Inr (if b then ''true'' else ''false'')"
| "ToString (JNum s) = Inr s"
| "ToString (JStr s) = Inr s"
| "ToString (JArr xs) = join_elements xs"
| "ToString (JObj kvs) =
     (if map_of kvs ''toString'' = None then Inr ''[object Object]'' else Inl TypeError)"
| "join_elements [] = Inr []"
| "join_elements (x # xs) =
     (case (if x = JUndefined \<or> x = JNull then Inr [] else ToString x) of
        Inl err \<Rightarrow> Inl err
      | Inr s \<Rightarrow>
          (if xs = [] then Inr s
           else (case join_elements xs of
                   Inl err \<Rightarrow> Inl err
                 | Inr rest \<Rightarrow> Inr (s @ '','' @ rest))))"

section \<open>Configuration, requests and what the program does\<close>

record config =
  domain :: string
  token :: string
  portal_url :: string

text \<open>
  The calls of the Remote Resource Client, each with the arguments of the source
  function that issues it: \<open>createEntity(entity, payload)\<close>, \<open>getEntity(entity, id)\<close>,
  \<open>patchEntity(entity, id, payload)\<close>.
\<close>

datatype op =
    Create string json
  | Get string json
  | Patch string json json

datatype verb = GET | POST | PATCH

record request =
  uri :: string
  verb :: verb
  authorization :: string
  body :: "json option"

text \<open>
  The options object each of the three hands to \<open>rp\<close>. \<open>getEntity\<close> and \<open>patchEntity\<close>
  put the id into the URL with a template literal, before their \<open>try\<close>: when the id
  does not convert to a string the function throws and issues no request.
\<close>

fun request_of :: "config \<Rightarrow> op \<Rightarrow> error + request" where
  "request_of cfg (Create entity payload) =
     Inr \<lparr>uri = ''https://'' @ domain cfg @ ''/api/v2/'' @ entity, verb = POST,
          authorization = ''Bearer '' @ token cfg, body = Some payload\<rparr>"
| "request_of cfg (Get entity ident) =
     and_then (ToString ident) (\<lambda>s.
     Inr \<lparr>uri = ''https://'' @ domain cfg @ ''/api/v2/'' @ entity @ ''/'' @ s,
          verb = GET, authorization = ''Bearer '' @ token cfg, body = None\<rparr>)"
| "request_of cfg (Patch entity ident payload) =
     and_then (ToString ident) (\<lambda>s.
     Inr \<lparr>uri = ''https://'' @ domain cfg @ ''/api/v2/'' @ entity @ ''/'' @ s,
          verb = PATCH, authorization = ''Bearer '' @ token cfg, body = Some payload\<rparr>)"

text \<open>
  The request of \<open>findConnections(strategy)\<close>. Its base is
  \<open>"https://" + path.join(config.domain, "api/v2")\<close>, which for a host name is the
  same text as above.
\<close>

definition find_request :: "config \<Rightarrow> string \<Rightarrow> request" where
  "find_request cfg strategy =
     \<lparr>uri = ''https://'' @ domain cfg @ ''/api/v2'' @ ''/connections?strategy='' @ strategy
        @ ''&fields=name'',
      verb = GET, authorization = ''Bearer '' @ token cfg, body = None\<rparr>"

text \<open>
  What \<open>rp\<close> comes back with. \<open>Fulfilled v\<close>: the call succeeded and its body is the
  JSON value \<open>v\<close>. \<open>Malformed s\<close>: the call succeeded and its body \<open>s\<close> is not JSON.
  \<open>Rejected e\<close>: the promise rejected with \<open>e\<close>.
\<close>

datatype response =
    Fulfilled json
  | Malformed string
  | Rejected error

text \<open>
  A choice offered to the operator: the object \<open>{ name: c.name, value: c.id }\<close> that
  \<open>findConnections\<close> builds.
\<close>

record choice =
  choice_name :: json
  choice_value :: json

text \<open>The effects of the program, in the order it performs them.\<close>

datatype action =
    Log string
  | LogError error
  | Call op
  | Find string
  | Delay nat
  | ReadFile string
  | WriteFile string string
  | Prompt "choice list" "choice list" "choice list"
  | Exit nat


text \<open>
  What can happen to a pending asynchronous task of the program: the file it reads
  arrives (or the read fails), the response to its request arrives, or the timer of its
  delay fires.
\<close>

datatype occurrence =
    Loaded "error + string"
  | Response response
  | Timeout

text \<open>\<open>xs.map(f)\<close> for an \<open>f\<close> that can throw.\<close>

fun map_throwing :: "('a \<Rightarrow> error + 'b) \<Rightarrow> 'a list \<Rightarrow> error + 'b list" where
  "map_throwing f [] = Inr []"
| "map_throwing f (x # xs) =
     and_then (f x) (\<lambda>y. and_then (map_throwing f xs) (\<lambda>ys. Inr (y # ys)))"

section \<open>The retry policy\<close>

text \<open>
  One invocation chain of \<open>createEntity\<close>, \<open>getEntity\<close> or \<open>patchEntity\<close> is a job: its
  request is in flight, or it sleeps in \<open>handleError\<close>'s delay before it invokes the same
  function with the same arguments again, or its promise has resolved with a value. The
  program never bounds the number of retries, so a job is driven by what happens to it.
\<close>

datatype phase = InFlight | Sleeping | Settled json

datatype job = Job op phase

definition DELAY_SECONDS :: nat where
  "DELAY_SECONDS = 5"

text \<open>
  The synchronous start of an invocation: \<open>createEntity\<close> logs and issues its request,
  the other two issue theirs.
\<close>

fun invoke :: "op \<Rightarrow> action list" where
  "invoke (Create entity payload) =
     [Log (''creating '' @ entity @ ''...''), Call (Create entity payload)]"
| "invoke p = [Call p]"

text \<open>
  \<open>handleError(err, failedOperation)\<close>: on status code 429 log, wait and (in phase
  \<open>Sleeping\<close>, when the timer fires) invoke the failed operation again; on anything else
  log the error and return nothing, which resolves the caller's promise with
  \<open>undefined\<close>.
\<close>

definition handleError :: "error \<Rightarrow> phase \<times> action list" where
  "handleError err =
     (if statusCode err = Some 429
      then (Sleeping,
            [Log ''rate limited, waiting for 5s before retyring..'',
             Delay (DELAY_SECONDS * 1000)])
      else (Settled JUndefined, [LogError err]))"

text \<open>
  The \<open>try\<close> block: what \<open>await rp(...)\<close> returns or throws. \<open>createEntity\<close> and
  \<open>patchEntity\<close> pass \<open>json: payload\<close>, so \<open>rp\<close> hands back the parsed body; a body that
  does not parse is handed back as the text it is, and an empty body as \<open>undefined\<close>.
  \<open>getEntity\<close> calls \<open>JSON.parse\<close> inside the \<open>try\<close>, so its SyntaxError (on an empty
  body too) is caught like a rejection.
\<close>

fun attempt :: "op \<Rightarrow> response \<Rightarrow> error + json" where
  "attempt p (Fulfilled v) = Inr v"
| "attempt (Get entity ident) (Malformed s) = Inl SyntaxError"
| "attempt p (Malformed s) = Inr (if s = [] then JUndefined else JStr s)"
| "attempt p (Rejected err) = Inl err"

text \<open>The \<open>try\<close> and its \<open>catch\<close>, which hands the error to \<open>handleError\<close>.\<close>

definition on_response :: "op \<Rightarrow> response \<Rightarrow> phase \<times> action list" where
  "on_response p r =
     (case attempt p r of Inr v \<Rightarrow> (Settled v, []) | Inl err \<Rightarrow> handleError err)"

text \<open>\<open>None\<close>: the occurrence cannot happen to the job in its phase.\<close>

fun job_step :: "job \<Rightarrow> occurrence \<Rightarrow> (job \<times> action list) option" where
  "job_step (Job p InFlight) (Response r) =
     (case on_response p r of (ph, acts) \<Rightarrow> Some (Job p ph, acts))"
| "job_step (Job p Sleeping) Timeout = Some (Job p InFlight, invoke p)"
| "job_step j x = None"

text \<open>
  A job from its first invocation through a list of occurrences, with everything it
  did. Occurrences that cannot happen are skipped.
\<close>

fun job_exec :: "job \<times> action list \<Rightarrow> occurrence \<Rightarrow> job \<times> action list" where
  "job_exec (j, tr) x =
     (case job_step j x of None \<Rightarrow> (j, tr) | Some (j', acts) \<Rightarrow> (j', tr @ acts))"

definition job_run :: "op \<Rightarrow> occurrence list \<Rightarrow> job \<times> action list" where
  "job_run p xs = foldl job_exec (Job p InFlight, invoke p) xs"

text \<open>
  The remote double of the retry tests: it rejects with each error of \<open>errs\<close> in
  turn, the timer firing after each, and then answers \<open>final\<close>.
\<close>

definition retries :: "error list \<Rightarrow> occurrence list" where
  "retries errs = concat (map (\<lambda>e. [Response (Rejected e), Timeout]) errs)"

definition rate_limited :: "error list \<Rightarrow> response \<Rightarrow> occurrence list" where
  "rate_limited errs final = retries errs @ [Response final]"

text \<open>What a job does at one rate limit, before its timer fires.\<close>

definition wait :: "action list" where
  "wait = [Log ''rate limited, waiting for 5s before retyring..'', Delay 5000]"

fun is_call :: "action \<Rightarrow> bool" where
  "is_call (Call p) = True"
| "is_call a = False"

fun is_delay :: "action \<Rightarrow> bool" where
  "is_delay (Delay ms) = True"
| "is_delay a = False"

section \<open>Connection discovery\<close>

text \<open>The arrow function \<open>c => ({ name: c.name, value: c.id })\<close>.\<close>

definition choice_of :: "json \<Rightarrow> error + choice" where
  "choice_of c =
     and_then (getprop c ''name'') (\<lambda>n.
     and_then (getprop c ''id'') (\<lambda>i.
     Inr \<lparr>choice_name = n, choice_value = i\<rparr>))"

text \<open>
  \<open>findConnections\<close> from the response to its request on. The rejection of \<open>rp\<close> and
  the SyntaxError of \<open>JSON.parse\<close> are not caught. \<open>connections.map\<close> exists only on
  an array.
\<close>

fun findConnections :: "response \<Rightarrow> error + choice list" where
  "findConnections (Rejected err) = Inl err"
| "findConnections (Malformed s) = Inl SyntaxError"
| "findConnections (Fulfilled (JArr connections)) = map_throwing choice_of connections"
| "findConnections (Fulfilled v) = Inl TypeError"

text \<open>
  \<open>validateConnections\<close> up to its prompt: the three checks in the order of the
  source, each logging its message and calling \<open>process.exit(0)\<close>.
\<close>

datatype validation = ExitWith string nat | Ask

definition validateConnections ::
  "choice list \<Rightarrow> choice list \<Rightarrow> choice list \<Rightarrow> validation" where
  "validateConnections ad_connections sms_connections email_connections =
     (if length ad_connections < 1 then
        ExitWith
          ''AD connection is required. Please setup an AD connection and rerun the script.'' 0
      else if length sms_connections < 1 then
        ExitWith
          ''SMS passwordless connection is required. Please setup passwordless SMS and rerun the script.''
          0
      else if length email_connections < 1 then
        ExitWith
          ''Email passwordless connection is required. Please setup passwordless Email and rerun the script.''
          0
      else Ask)"

text \<open>The answers of the prompt: the \<open>value\<close> of the choice picked from each list.\<close>

record selection =
  selected_ad_connection :: json
  selected_sms_connection :: json
  selected_email_connection :: json

section \<open>The artefacts\<close>

text \<open>
  The \<open>createEntity\<close> call of each creation function. \<open>createPortalClient\<close> and
  \<open>createRule\<close> read a file first; they are given its text.
\<close>

definition createPortalClient :: "config \<Rightarrow> string \<Rightarrow> op" where
  "createPortalClient cfg pageHtml =
     Create ''clients''
       (JObj [(''name'', JStr ''Self Service Portal''),
              (''callbacks'', JArr [JStr (portal_url cfg @ ''/callback'')]),
              (''jwt_configuration'', JObj [(''alg'', JStr ''RS256'')]),
              (''custom_login_page'', JStr pageHtml),
              (''custom_login_page_on'', JBool True),
              (''app_type'', JStr ''spa''),
              (''grant_types'', JArr [JStr ''authorization_code'', JStr ''implicit''])])"

definition createBackendClient :: op where
  "createBackendClient =
     Create ''clients''
       (JObj [(''name'', JStr ''Self Service Backend''),
              (''app_type'', JStr ''non_interactive''),
              (''grant_types'',
               JArr [JStr ''client_credentials'',
                     JStr ''http://auth0.com/oauth/grant-type/password-realm'',
                     JStr ''http://auth0.com/oauth/legacy/grant-type/ro'',
                     JStr ''password''])])"

definition scope_entry :: "string \<Rightarrow> string \<Rightarrow> json" where
  "scope_entry v d = JObj [(''value'', JStr v), (''description'', JStr d)]"

definition createBackendAPI :: op where
  "createBackendAPI =
     Create ''resource-servers''
       (JObj [(''name'', JStr ''Self Service API''),
              (''identifier'', JStr ''urn:self-service-portal-api''),
              (''scopes'',
               JArr [scope_entry ''change:password'' ''Change Password'',
                     scope_entry ''reset:password'' ''Reset Password'',
                     scope_entry ''update:enrolment'' ''Update Enrolment'',
                     scope_entry ''create:enrolment'' ''Create Enrolment'',
                     scope_entry ''read:enrolment'' ''Read Enrolment'',
                     scope_entry ''delete:enrolment'' ''delete:enrolment''])])"

definition createRule :: "string \<Rightarrow> op" where
  "createRule ruleCode =
     Create ''rules''
       (JObj [(''name'', JStr ''Self Service Issue Scopes''),
              (''script'', JStr ruleCode),
              (''enabled'', JBool True)])"

text \<open>
  \<open>createMgmtApiGrant(backendClient)\<close>: reading \<open>backendClient.client_id\<close> throws when
  the backend client is \<open>undefined\<close>.
\<close>

definition createMgmtApiGrant :: "config \<Rightarrow> json \<Rightarrow> error + op" where
  "createMgmtApiGrant cfg backendClient =
     and_then (getprop backendClient ''client_id'') (\<lambda>client_id.
     Inr (Create ''client-grants''
            (JObj [(''client_id'', client_id),
                   (''audience'', JStr (''https://'' @ domain cfg @ ''/api/v2/'')),
                   (''scope'',
                    JArr [JStr ''read:users'', JStr ''update:users'', JStr ''delete:users''])])))"

record artefacts =
  portal :: json
  backend :: json
  api :: json
  rule :: json
  mgmt_grant :: json

section \<open>Asynchronous tasks\<close>

text \<open>
  The tasks that \<open>Promise.all\<close> waits for. A task that reads a template file first
  (\<open>createPortalClient\<close>, \<open>createRule\<close>) is \<open>Reading\<close> until the text arrives and
  then runs its \<open>createEntity\<close> job; a failed read rejects its promise.
\<close>

datatype template = PortalLogin | IssueScopesRule

fun file_name :: "template \<Rightarrow> string" where
  "file_name PortalLogin = ''portal_login.html''"
| "file_name IssueScopesRule = ''issue_scopes_rule.js''"

fun create_from :: "config \<Rightarrow> template \<Rightarrow> string \<Rightarrow> op" where
  "create_from cfg PortalLogin text = createPortalClient cfg text"
| "create_from cfg IssueScopesRule text = createRule text"

datatype slot = Reading template | Running job | Failed error

fun slot_step :: "config \<Rightarrow> slot \<Rightarrow> occurrence \<Rightarrow> (slot \<times> action list) option" where
  "slot_step cfg (Reading t) (Loaded (Inr text)) =
     Some (Running (Job (create_from cfg t text) InFlight), invoke (create_from cfg t text))"
| "slot_step cfg (Reading t) (Loaded (Inl err)) = Some (Failed err, [])"
| "slot_step cfg (Running j) x =
     (case job_step j x of None \<Rightarrow> None | Some (j', acts) \<Rightarrow> Some (Running j', acts))"
| "slot_step cfg sl x = None"

fun settled :: "slot \<Rightarrow> json option" where
  "settled (Running (Job p (Settled v))) = Some v"
| "settled sl = None"

text \<open>The array \<open>Promise.all\<close> resolves with, once every task has resolved.\<close>

fun results :: "slot list \<Rightarrow> json list option" where
  "results [] = Some []"
| "results (sl # sls) =
     (case settled sl of None \<Rightarrow> None
      | Some v \<Rightarrow> (case results sls of None \<Rightarrow> None | Some vs \<Rightarrow> Some (v # vs)))"

text \<open>
  What happens to the program from outside: something happens to its task number \<open>i\<close>,
  the operator answers the prompt (the position picked in each of the three lists), or
  a file write completes (with an error or without).
\<close>

datatype event =
    Task nat occurrence
  | Answered nat nat nat
  | Written "error option"

datatype entry = In event | Out action

text \<open>
  One step of a run: an event that can happen in the state is recorded, followed by
  what the program does in response; an event that cannot happen is skipped. The
  program runs on one thread: everything it does in response to an event, up to its
  next \<open>await\<close> of something outside, is done before the next event is looked at.
\<close>

definition advance ::
  "('s \<Rightarrow> event \<Rightarrow> ('s \<times> action list) option) \<Rightarrow> 's \<times> entry list \<Rightarrow> event \<Rightarrow> 's \<times> entry list" where
  "advance step c e =
     (case step (fst c) e of
        None \<Rightarrow> c
      | Some (s', acts) \<Rightarrow> (s', snd c @ In e # map Out acts))"

section \<open>The artefact provisioner\<close>

text \<open>
  \<open>createArtefacts\<close>: in \<open>Stage1\<close> the four creations (tasks 0 to 3: portal client,
  backend client, backend API, rule) are pending in \<open>Promise.all\<close>; in \<open>Stage2\<close> the four
  results are bound and the grant (task 4) is pending; then the function has returned
  its object, or it has thrown. After a throw the tasks already started go on.
\<close>

datatype astate =
    Stage1 "slot list"
  | Stage2 json json json json job
  | Returned artefacts
  | Threw error "slot list"

definition createArtefacts_start :: "astate \<times> action list" where
  "createArtefacts_start =
     (Stage1 [Reading PortalLogin,
              Running (Job createBackendClient InFlight),
              Running (Job createBackendAPI InFlight),
              Reading IssueScopesRule],
      [ReadFile (file_name PortalLogin)] @ invoke createBackendClient
        @ invoke createBackendAPI @ [ReadFile (file_name IssueScopesRule)])"

text \<open>\<open>vs[i]\<close>, one name of the destructuring of an array.\<close>

definition item :: "json list \<Rightarrow> nat \<Rightarrow> json" where
  "item vs i = (if i < length vs then vs ! i else JUndefined)"

text \<open>
  The two lines after \<open>Promise.all\<close> has resolved: the destructuring
  \<open>[portal, backend, api, rule]\<close> of the four results and the call of
  \<open>createMgmtApiGrant(backend)\<close>.
\<close>

definition after_all :: "config \<Rightarrow> slot list \<Rightarrow> json list \<Rightarrow> astate \<times> action list" where
  "after_all cfg slots vs =
     (case createMgmtApiGrant cfg (item vs 1) of
        Inl err \<Rightarrow> (Threw err slots, [])
      | Inr p \<Rightarrow>
          (Stage2 (item vs 0) (item vs 1) (item vs 2) (item vs 3) (Job p InFlight), invoke p))"

definition after_slot :: "config \<Rightarrow> slot list \<Rightarrow> slot \<Rightarrow> astate \<times> action list" where
  "after_slot cfg slots sl =
     (case sl of
        Failed err \<Rightarrow> (Threw err slots, [])
      | _ \<Rightarrow> (case results slots of
                None \<Rightarrow> (Stage1 slots, [])
              | Some vs \<Rightarrow> after_all cfg slots vs))"

fun astep :: "config \<Rightarrow> astate \<Rightarrow> event \<Rightarrow> (astate \<times> action list) option" where
  "astep cfg (Stage1 slots) (Task i x) =
     (if i < length slots then
        (case slot_step cfg (slots ! i) x of
           None \<Rightarrow> None
         | Some (sl, acts) \<Rightarrow>
             (case after_slot cfg (slots[i := sl]) sl of (s, acts2) \<Rightarrow> Some (s, acts @ acts2)))
      else None)"
| "astep cfg (Stage2 portal' backend' api' rule' j) (Task i x) =
     (if i = 4 then
        (case job_step j x of
           None \<Rightarrow> None
         | Some (Job p (Settled v), acts) \<Rightarrow>
             Some (Returned \<lparr>portal = portal', backend = backend', api = api', rule = rule',
                             mgmt_grant = v\<rparr>, acts)
         | Some (j', acts) \<Rightarrow> Some (Stage2 portal' backend' api' rule' j', acts))
      else None)"
| "astep cfg (Threw err slots) (Task i x) =
     (if i < length slots then
        (case slot_step cfg (slots ! i) x of
           None \<Rightarrow> None
         | Some (sl, acts) \<Rightarrow> Some (Threw err (slots[i := sl]), acts))
      else None)"
| "astep cfg s e = None"

definition createArtefacts :: "config \<Rightarrow> event list \<Rightarrow> astate \<times> entry list" where
  "createArtefacts cfg es =
     foldl (advance (astep cfg))
       (fst createArtefacts_start, map Out (snd createArtefacts_start)) es"

section \<open>The connection enabler\<close>

text \<open>
  \<open>_.concat(array, [x, y])\<close> of lodash: a copy of \<open>array\<close>, or \<open>[array]\<close> when it is not
  an array, with \<open>x\<close> and \<open>y\<close> pushed.
\<close>

definition lodash_concat :: "json \<Rightarrow> json list \<Rightarrow> json list" where
  "lodash_concat array vals = (case array of JArr xs \<Rightarrow> xs | v \<Rightarrow> [v]) @ vals"

text \<open>
  The arrow function of \<open>cons.map\<close>: the object \<open>{ id, patch }\<close> for a fetched
  connection \<open>c\<close>, as the pair of its two fields.
\<close>

definition patch_of :: "artefacts \<Rightarrow> json \<Rightarrow> error + json \<times> json" where
  "patch_of arts c =
     and_then (getprop c ''id'') (\<lambda>ident.
     and_then (getprop c ''enabled_clients'') (\<lambda>enabled.
     and_then (getprop (portal arts) ''client_id'') (\<lambda>portal_id.
     and_then (getprop (backend arts) ''client_id'') (\<lambda>backend_id.
     and_then (getprop c ''strategy'') (\<lambda>strategy.
     Inr (ident,
          JObj [(''enabled_clients'', JArr (lodash_concat enabled [portal_id, backend_id])),
                (''metadata'',
                 if strategy = JStr ''ad''
                 then JObj [(''username_field_name'', JStr ''sAMAccountName'')]
                 else JObj [])]))))))"

definition patches :: "artefacts \<Rightarrow> json list \<Rightarrow> error + (json \<times> json) list" where
  "patches arts cons = map_throwing (patch_of arts) cons"

text \<open>
  The patch as the specification words it, for a connection with the fields \<open>kvs\<close> and
  the prior list \<open>prior\<close> of enabled clients: the connection's id, the prior list with
  the portal id and then the backend id appended, and the metadata of the strategy.
\<close>

definition spec_patch ::
  "json \<Rightarrow> json \<Rightarrow> (string \<times> json) list \<Rightarrow> json list \<Rightarrow> json \<times> json" where
  "spec_patch portal_id backend_id kvs prior =
     (own_property kvs ''id'',
      JObj [(''enabled_clients'', JArr (prior @ [portal_id, backend_id])),
            (''metadata'',
             if own_property kvs ''strategy'' = JStr ''ad''
             then JObj [(''username_field_name'', JStr ''sAMAccountName'')]
             else JObj [])])"

text \<open>
  \<open>enableConnections\<close>: the three fetches are pending (tasks 0 to 2, in the order of
  \<open>Object.keys(selectedConnections)\<close>), then the patches, then the function has
  returned the patch responses, or it has thrown: with nothing left running (\<open>EThrew\<close>,
  the patches could not be derived) or with calls still running (\<open>ERejected\<close>).
\<close>

datatype estate =
    Fetching "slot list"
  | Patching "slot list"
  | Enabled "json list"
  | EThrew error
  | ERejected error "slot list"

text \<open>
  The call of \<open>getEntity\<close> or \<open>patchEntity\<close> for one element of a \<open>map\<close>: its request
  is issued, or (the URL cannot be built) its promise is rejected at once.
\<close>

definition launch :: "config \<Rightarrow> op \<Rightarrow> slot \<times> action list" where
  "launch cfg p =
     (case request_of cfg p of
        Inl err \<Rightarrow> (Failed err, [])
      | Inr req \<Rightarrow> (Running (Job p InFlight), invoke p))"

definition start_all :: "config \<Rightarrow> op list \<Rightarrow> slot list \<times> action list" where
  "start_all cfg ps = (map (\<lambda>p. fst (launch cfg p)) ps, concat (map (\<lambda>p. snd (launch cfg p)) ps))"

text \<open>The first rejection among the promises given to \<open>Promise.all\<close>.\<close>

fun first_failure :: "slot list \<Rightarrow> error option" where
  "first_failure [] = None"
| "first_failure (Failed err # sls) = Some err"
| "first_failure (sl # sls) = first_failure sls"

text \<open>
  \<open>await Promise.all\<close> over calls just started: pending in the phase \<open>pending\<close>, or
  rejected already, which makes \<open>enableConnections\<close> throw while the calls that were
  started go on (\<open>ERejected\<close>).
\<close>

definition await_all ::
  "(slot list \<Rightarrow> estate) \<Rightarrow> slot list \<times> action list \<Rightarrow> estate \<times> action list" where
  "await_all pending started =
     (case first_failure (fst started) of
        None \<Rightarrow> (pending (fst started), snd started)
      | Some err \<Rightarrow> (ERejected err (fst started), snd started))"

definition enableConnections_start :: "config \<Rightarrow> selection \<Rightarrow> estate \<times> action list" where
  "enableConnections_start cfg selectedConnections =
     await_all Fetching
       (start_all cfg
          (map (Get ''connections'')
             [selected_ad_connection selectedConnections,
              selected_sms_connection selectedConnections,
              selected_email_connection selectedConnections]))"

definition after_fetch :: "config \<Rightarrow> artefacts \<Rightarrow> slot list \<Rightarrow> estate \<times> action list" where
  "after_fetch cfg arts slots =
     (case results slots of
        None \<Rightarrow> (Fetching slots, [])
      | Some cons \<Rightarrow>
          (case patches arts cons of
             Inl err \<Rightarrow> (EThrew err, [])
           | Inr ps \<Rightarrow>
               await_all Patching
                 (start_all cfg
                    (map (\<lambda>(ident, patch). Patch ''connections'' ident patch) ps))))"

definition after_patch :: "slot list \<Rightarrow> estate \<times> action list" where
  "after_patch slots =
     (case results slots of None \<Rightarrow> (Patching slots, []) | Some vs \<Rightarrow> (Enabled vs, []))"

fun estep :: "config \<Rightarrow> artefacts \<Rightarrow> estate \<Rightarrow> event \<Rightarrow> (estate \<times> action list) option" where
  "estep cfg arts (Fetching slots) (Task i x) =
     (if i < length slots then
        (case slot_step cfg (slots ! i) x of
           None \<Rightarrow> None
         | Some (sl, acts) \<Rightarrow>
             (case after_fetch cfg arts (slots[i := sl]) of
                (s, acts2) \<Rightarrow> Some (s, acts @ acts2)))
      else None)"
| "estep cfg arts (Patching slots) (Task i x) =
     (if i < length slots then
        (case slot_step cfg (slots ! i) x of
           None \<Rightarrow> None
         | Some (sl, acts) \<Rightarrow>
             (case after_patch (slots[i := sl]) of (s, acts2) \<Rightarrow> Some (s, acts @ acts2)))
      else None)"
| "estep cfg arts (ERejected err slots) (Task i x) =
     (if i < length slots then
        (case slot_step cfg (slots ! i) x of
           None \<Rightarrow> None
         | Some (sl, acts) \<Rightarrow> Some (ERejected err (slots[i := sl]), acts))
      else None)"
| "estep cfg arts s e = None"

definition enableConnections ::
  "config \<Rightarrow> artefacts \<Rightarrow> selection \<Rightarrow> event list \<Rightarrow> estate \<times> entry list" where
  "enableConnections cfg arts selectedConnections es =
     foldl (advance (estep cfg arts))
       (fst (enableConnections_start cfg selectedConnections),
        map Out (snd (enableConnections_start cfg selectedConnections))) es"

fun is_patch_call :: "entry \<Rightarrow> bool" where
  "is_patch_call (Out (Call (Patch entity ident payload))) = True"
| "is_patch_call t = False"

section \<open>The environment emitter\<close>

definition newline :: string where
  "newline = [CHR 0x0A]"

text \<open>
  The two template literals of \<open>generateEnv\<close>, \<open>client_env\<close> and \<open>server_env\<close>; both are
  evaluated before either file is written.
\<close>

definition generateEnv :: "config \<Rightarrow> artefacts \<Rightarrow> error + string \<times> string" where
  "generateEnv cfg arts =
     and_then (getprop (portal arts) ''client_id'') (\<lambda>portal_id.
     and_then (ToString portal_id) (\<lambda>portal_text.
     and_then (getprop (backend arts) ''client_id'') (\<lambda>backend_id.
     and_then (ToString backend_id) (\<lambda>backend_text.
     and_then (getprop (backend arts) ''client_secret'') (\<lambda>backend_secret.
     and_then (ToString backend_secret) (\<lambda>secret_text.
     Inr (''REACT_APP_domain='' @ domain cfg @ newline
            @ ''REACT_APP_clientID='' @ portal_text @ newline
            @ ''REACT_APP_audience=urn:self-service-portal-api'' @ newline,
          ''NON_INTERACTIVE_CLIENT_ID='' @ backend_text @ newline
            @ ''NON_INTERACTIVE_CLIENT_SECRET='' @ secret_text @ newline
            @ ''DOMAIN='' @ domain cfg @ newline
            @ ''AUDIENCE=urn:self-service-portal-api'' @ newline)))))))"

text \<open>The lines of a block: the text before each newline.\<close>

fun lines_from :: "string \<Rightarrow> string \<Rightarrow> string list" where
  "lines_from cur [] = (if cur = [] then [] else [cur])"
| "lines_from cur (c # cs) =
     (if c = CHR 0x0A then cur # lines_from [] cs else lines_from (cur @ [c]) cs)"

definition lines :: "string \<Rightarrow> string list" where
  "lines s = lines_from [] s"

section \<open>The whole run\<close>

text \<open>
  \<open>runSetup\<close>, given the configuration that \<open>getAndValidateConfig\<close> returned: the three
  discoveries are pending in \<open>Promise.all\<close> (tasks 0 to 2: ad, sms, email), the operator
  is choosing, \<open>createArtefacts\<close> is running, \<open>enableConnections\<close> is running, one of
  the two files is being written, the run is done, the process has exited with a
  status, or \<open>runSetup\<close> has thrown. Nothing handles the rejected promise of
  \<open>runSetup\<close> (the \<open>try\<close> around its call ends before the promise settles), so the
  calls already started by \<open>createArtefacts\<close> or \<open>enableConnections\<close> go on.
\<close>

datatype state =
    Discovering "choice list option list"
  | Choosing "choice list" "choice list" "choice list"
  | Provisioning selection astate
  | Enabling artefacts estate
  | WritingClient string
  | WritingServer
  | Finished
  | Exited nat
  | Aborted error "slot list"

definition runSetup_start :: "state \<times> action list" where
  "runSetup_start =
     (Discovering [None, None, None],
      [Log ''Self Service Portal Setup'', Log newline, Log ''analysing tenant...'',
       Find ''ad'', Find ''sms'', Find ''email''])"

text \<open>
  Once the three discoveries have resolved, \<open>validateConnections\<close> runs: it exits the
  process or prompts.
\<close>

fun after_discovery :: "choice list option list \<Rightarrow> state \<times> action list" where
  "after_discovery [Some ad_connections, Some sms_connections, Some email_connections] =
     (case validateConnections ad_connections sms_connections email_connections of
        ExitWith msg code \<Rightarrow> (Exited code, [Log msg, Exit code])
      | Ask \<Rightarrow>
          (Choosing ad_connections sms_connections email_connections,
           [Prompt ad_connections sms_connections email_connections]))"
| "after_discovery found = (Discovering found, [])"

definition after_enable :: "config \<Rightarrow> artefacts \<Rightarrow> estate \<Rightarrow> state \<times> action list" where
  "after_enable cfg arts s =
     (case s of
        Enabled vs \<Rightarrow>
          (case generateEnv cfg arts of
             Inl err \<Rightarrow> (Aborted err [], [])
           | Inr (client_env, server_env) \<Rightarrow>
               (WritingClient server_env, [WriteFile ''client.env'' client_env]))
      | EThrew err \<Rightarrow> (Aborted err [], [])
      | ERejected err slots \<Rightarrow> (Aborted err slots, [])
      | _ \<Rightarrow> (Enabling arts s, []))"

definition after_provision :: "config \<Rightarrow> selection \<Rightarrow> astate \<Rightarrow> state \<times> action list" where
  "after_provision cfg sel a =
     (case a of
        Returned arts \<Rightarrow>
          (case enableConnections_start cfg sel of
             (s, acts) \<Rightarrow>
               (case after_enable cfg arts s of (s', acts2) \<Rightarrow> (s', acts @ acts2)))
      | Threw err slots \<Rightarrow> (Aborted err slots, [])
      | _ \<Rightarrow> (Provisioning sel a, []))"

fun step :: "config \<Rightarrow> state \<Rightarrow> event \<Rightarrow> (state \<times> action list) option" where
  "step cfg (Discovering found) (Task i (Response r)) =
     (if i < length found \<and> found ! i = None then
        (case findConnections r of
           Inl err \<Rightarrow> Some (Aborted err [], [])
         | Inr connections \<Rightarrow> Some (after_discovery (found[i := Some connections])))
      else None)"
| "step cfg (Choosing ad_connections sms_connections email_connections) (Answered a s e) =
     (if a < length ad_connections \<and> s < length sms_connections
         \<and> e < length email_connections then
        Some (Provisioning
                \<lparr>selected_ad_connection = choice_value (ad_connections ! a),
                 selected_sms_connection = choice_value (sms_connections ! s),
                 selected_email_connection = choice_value (email_connections ! e)\<rparr>
                (fst createArtefacts_start),
              snd createArtefacts_start)
      else None)"
| "step cfg (Provisioning sel a) e =
     (case astep cfg a e of
        None \<Rightarrow> None
      | Some (a', acts) \<Rightarrow>
          (case after_provision cfg sel a' of (s, acts2) \<Rightarrow> Some (s, acts @ acts2)))"
| "step cfg (Enabling arts s) e =
     (case estep cfg arts s e of
        None \<Rightarrow> None
      | Some (s', acts) \<Rightarrow>
          (case after_enable cfg arts s' of (s'', acts2) \<Rightarrow> Some (s'', acts @ acts2)))"
| "step cfg (WritingClient server_env) (Written None) =
     Some (WritingServer, [WriteFile ''server.env'' server_env])"
| "step cfg (WritingClient server_env) (Written (Some err)) = Some (Aborted err [], [])"
| "step cfg WritingServer (Written None) =
     Some (Finished, [Log ''Done. Copy the generated .env files in respective folders.''])"
| "step cfg WritingServer (Written (Some err)) = Some (Aborted err [], [])"
| "step cfg (Aborted err slots) (Task i x) =
     (if i < length slots then
        (case slot_step cfg (slots ! i) x of
           None \<Rightarrow> None
         | Some (sl, acts) \<Rightarrow> Some (Aborted err (slots[i := sl]), acts))
      else None)"
| "step cfg s e = None"

definition runSetup :: "config \<Rightarrow> event list \<Rightarrow> state \<times> entry list" where
  "runSetup cfg es =
     foldl (advance (step cfg)) (fst runSetup_start, map Out (snd runSetup_start)) es"

fun is_create_call :: "entry \<Rightarrow> bool" where
  "is_create_call (Out (Call (Create entity payload))) = True"
| "is_create_call t = False"

section \<open>Reading a run\<close>

text \<open>
  Task \<open>i\<close>, running the call \<open>p\<close>, resolves with \<open>v\<close> at this entry of a run: the entry
  is the arrival of a response to task \<open>i\<close> on which the promise of \<open>p\<close> resolves with
  \<open>v\<close> (every entry of a run is an event that did happen).
\<close>

fun resolves :: "nat \<Rightarrow> op \<Rightarrow> json \<Rightarrow> entry \<Rightarrow> bool" where
  "resolves i p v (In (Task j (Response r))) = (j = i \<and> fst (on_response p r) = Settled v)"
| "resolves i p v t = False"

definition resolved_in :: "nat \<Rightarrow> op \<Rightarrow> json \<Rightarrow> entry list \<Rightarrow> bool" where
  "resolved_in i p v tr = (\<exists>t \<in> set tr. resolves i p v t)"

text \<open>Each of the four creations of the first stage has resolved within \<open>tr\<close>.\<close>

definition all_resolved :: "config \<Rightarrow> entry list \<Rightarrow> bool" where
  "all_resolved cfg tr =
     ((\<exists>text v. resolved_in 0 (createPortalClient cfg text) v tr)
      \<and> (\<exists>v. resolved_in 1 createBackendClient v tr)
      \<and> (\<exists>v. resolved_in 2 createBackendAPI v tr)
      \<and> (\<exists>text v. resolved_in 3 (createRule text) v tr))"

definition grant_call :: "json \<Rightarrow> entry" where
  "grant_call payload = Out (Call (Create ''client-grants'' payload))"

text \<open>
  The invariant of \<open>createArtefacts\<close>: whatever precedes a grant call holds the resolution
  of the four creations, and the grant carries the client id the backend client
  resolved with.
\<close>

definition backed :: "config \<Rightarrow> entry list \<Rightarrow> json \<Rightarrow> bool" where
  "backed cfg pre payload =
     (all_resolved cfg pre
      \<and> (\<exists>v. resolved_in 1 createBackendClient v pre
               \<and> getprop payload ''client_id'' = getprop v ''client_id''))"

definition ordered :: "config \<Rightarrow> entry list \<Rightarrow> bool" where
  "ordered cfg tr =
     (\<forall>pre payload post. tr = pre @ grant_call payload # post \<longrightarrow> backed cfg pre payload)"

definition expected :: "config \<Rightarrow> nat \<Rightarrow> op \<Rightarrow> bool" where
  "expected cfg i p =
     (if i = 0 then (\<exists>text. p = createPortalClient cfg text)
      else if i = 1 then p = createBackendClient
      else if i = 2 then p = createBackendAPI
      else if i = 3 then (\<exists>text. p = createRule text)
      else False)"

fun slot_ok :: "config \<Rightarrow> entry list \<Rightarrow> nat \<Rightarrow> slot \<Rightarrow> bool" where
  "slot_ok cfg tr i (Reading t) = ((i = 0 \<and> t = PortalLogin) \<or> (i = 3 \<and> t = IssueScopesRule))"
| "slot_ok cfg tr i (Running (Job p ph)) =
     (expected cfg i p \<and> (\<forall>v. ph = Settled v \<longrightarrow> resolved_in i p v tr))"
| "slot_ok cfg tr i (Failed err) = True"

definition slots_ok :: "config \<Rightarrow> entry list \<Rightarrow> slot list \<Rightarrow> bool" where
  "slots_ok cfg tr slots = (length slots = 4 \<and> (\<forall>i<4. slot_ok cfg tr i (slots ! i)))"

definition grant_free :: "entry list \<Rightarrow> bool" where
  "grant_free tr = (\<forall>payload. grant_call payload \<notin> set tr)"

fun ainv :: "config \<Rightarrow> astate \<Rightarrow> entry list \<Rightarrow> bool" where
  "ainv cfg (Stage1 slots) tr = (slots_ok cfg tr slots \<and> grant_free tr)"
| "ainv cfg (Threw err slots) tr = (slots_ok cfg tr slots \<and> grant_free tr)"
| "ainv cfg (Stage2 v0 v1 v2 v3 (Job p ph)) tr =
     (ordered cfg tr \<and> (\<exists>payload. p = Create ''client-grants'' payload \<and> backed cfg tr payload))"
| "ainv cfg (Returned arts) tr = ordered cfg tr"

text \<open>A task of the fetch phase of \<open>enableConnections\<close>.\<close>

definition fetching :: "slot \<Rightarrow> bool" where
  "fetching sl = (\<exists>ident ph. sl = Running (Job (Get ''connections'' ident) ph))"

section \<open>An example tenant\<close>

definition example_config :: config where
  "example_config =
     \<lparr>domain = ''t.example.com'', token = ''tok'', portal_url = ''https://portal.example.com''\<rparr>"

definition example_portal :: json where
  "example_portal = JObj [(''client_id'', JStr ''P1'')]"

definition example_backend :: json where
  "example_backend = JObj [(''client_id'', JStr ''B1''), (''client_secret'', JStr ''S1'')]"

definition example_artefacts :: artefacts where
  "example_artefacts =
     \<lparr>portal = example_portal, backend = example_backend, api = JUndefined,
      rule = JUndefined, mgmt_grant = JUndefined\<rparr>"

definition example_connection :: "string \<Rightarrow> string \<Rightarrow> json" where
  "example_connection ident strategy =
     JObj [(''id'', JStr ident), (''strategy'', JStr strategy),
           (''enabled_clients'', JArr [JStr ''x''])]"

definition example_selection :: selection where
  "example_selection =
     \<lparr>selected_ad_connection = JStr ''con_1'', selected_sms_connection = JStr ''con_2'',
      selected_email_connection = JStr ''con_3''\<rparr>"

text \<open>
  A run of \<open>createArtefacts\<close>: the backend client is created first, the API is rate
  limited once, the rule fails with a 500 and the API is created last.
\<close>

definition example_provisioning :: "event list" where
  "example_provisioning =
     [Task 1 (Response (Fulfilled example_backend)),
      Task 0 (Loaded (Inr ''<html/>'')),
      Task 3 (Loaded (Inr ''function(){}'')),
      Task 2 (Response (Rejected (RemoteCallFailure (Some 429) ''slow down''))),
      Task 0 (Response (Fulfilled example_portal)),
      Task 3 (Response (Rejected (RemoteCallFailure (Some 500) ''boom''))),
      Task 2 Timeout,
      Task 2 (Response (Fulfilled (JObj [(''id'', JStr ''A1'')])))]"

text \<open>What that run has done when the API is created.\<close>

definition example_trace :: "entry list" where
  "example_trace =
     [Out (ReadFile ''portal_login.html''),
      Out (Log ''creating clients...''), Out (Call createBackendClient),
      Out (Log ''creating resource-servers...''), Out (Call createBackendAPI),
      Out (ReadFile ''issue_scopes_rule.js''),
      In (Task 1 (Response (Fulfilled example_backend))),
      In (Task 0 (Loaded (Inr ''<html/>''))),
      Out (Log ''creating clients...''),
      Out (Call (createPortalClient example_config ''<html/>'')),
      In (Task 3 (Loaded (Inr ''function(){}''))),
      Out (Log ''creating rules...''), Out (Call (createRule ''function(){}'')),
      In (Task 2 (Response (Rejected (RemoteCallFailure (Some 429) ''slow down'')))),
      Out (Log ''rate limited, waiting for 5s before retyring..''), Out (Delay 5000),
      In (Task 0 (Response (Fulfilled example_portal))),
      In (Task 3 (Response (Rejected (RemoteCallFailure (Some 500) ''boom'')))),
      Out (LogError (RemoteCallFailure (Some 500) ''boom'')),
      In (Task 2 Timeout),
      Out (Log ''creating resource-servers...''), Out (Call createBackendAPI),
      In (Task 2 (Response (Fulfilled (JObj [(''id'', JStr ''A1'')])))),
      Out (Log ''creating client-grants...'')]"

definition example_grant :: json where
  "example_grant =
     JObj [(''client_id'', JStr ''B1''),
           (''audience'', JStr ''https://t.example.com/api/v2/''),
           (''scope'', JArr [JStr ''read:users'', JStr ''update:users'', JStr ''delete:users''])]"

text \<open>The start of every run of \<open>runSetup\<close>.\<close>

definition example_opening :: "entry list" where
  "example_opening =
     [Out (Log ''Self Service Portal Setup''), Out (Log newline),
      Out (Log ''analysing tenant...''),
      Out (Find ''ad''), Out (Find ''sms''), Out (Find ''email'')]"


section \<open>Jobs and runs\<close>

lemma on_response_Fulfilled [simp]: "on_response p (Fulfilled v) = (Settled v, [])"
  by (simp add: on_response_def)

lemma on_response_Rejected [simp]: "on_response p (Rejected err) = handleError err"
  by (simp add: on_response_def)

lemma job_step_same_op: "job_step (Job p ph) x = Some (Job q ph', acts) \<Longrightarrow> q = p"
  by (cases "(Job p ph, x)" rule: job_step.cases) (auto split: prod.splits)

lemma job_step_calls:
  "job_step (Job p ph) x = Some (j, acts) \<Longrightarrow> Call q \<in> set acts \<Longrightarrow> q = p"
  by (cases "(Job p ph, x)" rule: job_step.cases; cases p)
     (auto split: prod.splits if_splits sum.splits simp: handleError_def on_response_def)

lemma job_step_settled:
  "job_step (Job p ph) x = Some (Job q (Settled v), acts) \<Longrightarrow>
     \<exists>r. x = Response r \<and> fst (on_response p r) = Settled v"
  by (cases "(Job p ph, x)" rule: job_step.cases) (auto split: prod.splits)

lemma invoke_calls: "Call q \<in> set (invoke p) \<Longrightarrow> q = p"
  by (cases p) auto

lemma advance_stuck:
  assumes "\<And>e. st s e = None"
  shows "foldl (advance st) (s, tr) es = (s, tr)"
  by (induction es) (simp_all add: advance_def assms)
section \<open>Properties of the retry policy\<close>

lemma rate_limit_step:
  assumes "statusCode e = Some 429"
  shows "job_exec (Job p InFlight, tr) (Response (Rejected e)) = (Job p Sleeping, tr @ wait)"
  using assms by (simp add: handleError_def wait_def DELAY_SECONDS_def)

lemma wake_step: "job_exec (Job p Sleeping, tr) Timeout = (Job p InFlight, tr @ invoke p)"
  by simp

lemma retries_Cons: "retries (e # errs) = Response (Rejected e) # Timeout # retries errs"
  by (simp add: retries_def)

lemma retries_fold:
  assumes "\<forall>e \<in> set errs. statusCode e = Some 429"
  shows "foldl job_exec (Job p InFlight, tr) (retries errs @ rest) =
         foldl job_exec
           (Job p InFlight, tr @ concat (replicate (length errs) (wait @ invoke p))) rest"
  using assms
proof (induction errs arbitrary: tr)
  case Nil
  then show ?case by (simp add: retries_def)
next
  case (Cons e errs)
  have e: "statusCode e = Some 429" using Cons.prems by simp
  have "foldl job_exec (Job p InFlight, tr) (retries (e # errs) @ rest) =
        foldl job_exec (Job p InFlight, (tr @ wait) @ invoke p) (retries errs @ rest)"
    by (simp only: retries_Cons append_Cons foldl_Cons rate_limit_step [OF e] wake_step)
  then show ?case using Cons.IH [of "(tr @ wait) @ invoke p"] Cons.prems by simp
qed

lemma filter_call_invoke: "filter is_call (invoke p) = [Call p]"
  by (cases p) simp_all

lemma filter_delay_invoke: "filter is_delay (invoke p) = []"
  by (cases p) simp_all

lemma filter_concat_replicate:
  "filter P (concat (replicate n xs)) = concat (replicate n (filter P xs))"
  by (induction n) simp_all

lemma concat_replicate_single: "concat (replicate n [x]) = replicate n x"
  by (induction n) simp_all

lemma settled_job_stays: "foldl job_exec (Job p (Settled v), tr) xs = (Job p (Settled v), tr)"
  by (induction xs) simp_all

lemma sleeping_job_stays:
  "Timeout \<notin> set xs \<Longrightarrow> foldl job_exec (Job p Sleeping, tr) xs = (Job p Sleeping, tr)"
proof (induction xs)
  case Nil
  then show ?case by simp
next
  case (Cons x xs)
  then have "job_step (Job p Sleeping) x = None" by (cases x) simp_all
  then show ?case using Cons by simp
qed

text \<open>
  C1. An operation (a create, get or patch with its arguments) that is rejected with
  status code 429 on each of its first \<open>N\<close> invocations and succeeds with \<open>v\<close> on
  invocation \<open>N + 1\<close> resolves with \<open>v\<close>. Its run is the first invocation and then,
  \<open>N\<close> times, the log and the delay of 5000 milliseconds followed by the same
  invocation: exactly \<open>N\<close> delays and exactly \<open>N + 1\<close> calls, each the same call with the
  same arguments. Each delay is waited for: at every one of the \<open>N\<close> rate limits the
  job sleeps, and whatever else happens it invokes nothing until its timer fires.
\<close>

theorem retry_until_success:
  assumes "\<forall>e \<in> set errs. statusCode e = Some 429"
    and "attempt p final = Inr v"
  shows "job_run p (rate_limited errs final) =
           (Job p (Settled v),
            invoke p @ concat (replicate (length errs) (wait @ invoke p)))
       \<and> filter is_delay (snd (job_run p (rate_limited errs final)))
           = replicate (length errs) (Delay 5000)
       \<and> filter is_call (snd (job_run p (rate_limited errs final)))
           = replicate (length errs + 1) (Call p)
       \<and> (\<forall>k < length errs. \<forall>xs. Timeout \<notin> set xs \<longrightarrow>
             job_run p (retries (take k errs) @ Response (Rejected (errs ! k)) # xs) =
               (Job p Sleeping, invoke p @ concat (replicate k (wait @ invoke p)) @ wait))"
proof -
  have run: "job_run p (rate_limited errs final) =
      (Job p (Settled v), invoke p @ concat (replicate (length errs) (wait @ invoke p)))"
    unfolding job_run_def rate_limited_def
    using retries_fold [OF assms(1), of p "invoke p" "[Response final]"] assms(2)
    by (simp add: on_response_def del: invoke.simps)
  have counts: "filter is_delay (invoke p @ concat (replicate (length errs) (wait @ invoke p)))
           = replicate (length errs) (Delay 5000)"
      "filter is_call (invoke p @ concat (replicate (length errs) (wait @ invoke p)))
           = replicate (length errs + 1) (Call p)"
    by (simp_all add: filter_concat_replicate filter_call_invoke filter_delay_invoke
        concat_replicate_single wait_def replicate_append_same del: invoke.simps)
  have waits: "job_run p (retries (take k errs) @ Response (Rejected (errs ! k)) # xs) =
               (Job p Sleeping, invoke p @ concat (replicate k (wait @ invoke p)) @ wait)"
    if k: "k < length errs" and xs: "Timeout \<notin> set xs" for k xs
  proof -
    have before: "\<forall>e \<in> set (take k errs). statusCode e = Some 429"
      using assms(1) by (auto dest: in_set_takeD)
    have this_one: "statusCode (errs ! k) = Some 429" using assms(1) k by simp
    have len: "length (take k errs) = k" using k by simp
    have "foldl job_exec (Job p InFlight, invoke p)
            (retries (take k errs) @ Response (Rejected (errs ! k)) # xs) =
          foldl job_exec
            (Job p InFlight, invoke p @ concat (replicate k (wait @ invoke p)))
            (Response (Rejected (errs ! k)) # xs)"
      using retries_fold [OF before, of p "invoke p" "Response (Rejected (errs ! k)) # xs"]
      unfolding len .
    also have "\<dots> = foldl job_exec
            (Job p Sleeping, (invoke p @ concat (replicate k (wait @ invoke p))) @ wait) xs"
      by (simp only: foldl_Cons rate_limit_step [OF this_one])
    also have "\<dots> = (Job p Sleeping, (invoke p @ concat (replicate k (wait @ invoke p))) @ wait)"
      using xs by (rule sleeping_job_stays)
    finally show ?thesis unfolding job_run_def by simp
  qed
  show ?thesis using run counts waits by simp
qed

theorem retry_until_success_witness:
  "job_run (Create ''clients'' (JObj []))
        (rate_limited [RemoteCallFailure (Some 429) ''slow down'',
                       RemoteCallFailure (Some 429) ''again'']
           (Fulfilled (JObj [(''client_id'', JStr ''B1'')])))
      = (Job (Create ''clients'' (JObj [])) (Settled (JObj [(''client_id'', JStr ''B1'')])),
         [Log ''creating clients...'', Call (Create ''clients'' (JObj [])),
          Log ''rate limited, waiting for 5s before retyring..'', Delay 5000,
          Log ''creating clients...'', Call (Create ''clients'' (JObj [])),
          Log ''rate limited, waiting for 5s before retyring..'', Delay 5000,
          Log ''creating clients...'', Call (Create ''clients'' (JObj []))])
   \<and> filter is_call (snd (job_run (Create ''clients'' (JObj []))
        (rate_limited [RemoteCallFailure (Some 429) ''slow down'',
                       RemoteCallFailure (Some 429) ''again'']
           (Fulfilled (JObj [(''client_id'', JStr ''B1'')])))))
      = replicate 3 (Call (Create ''clients'' (JObj [])))
   \<and> job_run (Create ''clients'' (JObj []))
        [Response (Rejected (RemoteCallFailure (Some 429) ''slow down'')), Timeout,
         Response (Rejected (RemoteCallFailure (Some 429) ''again'')),
         Response (Fulfilled (JObj [(''client_id'', JStr ''B1'')]))]
      = (Job (Create ''clients'' (JObj [])) Sleeping,
         [Log ''creating clients...'', Call (Create ''clients'' (JObj [])),
          Log ''rate limited, waiting for 5s before retyring..'', Delay 5000,
          Log ''creating clients...'', Call (Create ''clients'' (JObj [])),
          Log ''rate limited, waiting for 5s before retyring..'', Delay 5000])"
proof -
  let ?errs = "[RemoteCallFailure (Some 429) ''slow down'', RemoteCallFailure (Some 429) ''again'']"
  let ?v = "JObj [(''client_id'', JStr ''B1'')]"
  have limited: "\<forall>e \<in> set ?errs. statusCode e = Some 429"
    by simp
  have success: "attempt (Create ''clients'' (JObj [])) (Fulfilled ?v) = Inr ?v"
    by simp
  have k: "(1::nat) < length ?errs" by simp
  have quiet: "Timeout \<notin> set [Response (Fulfilled ?v)]" by simp
  from retry_until_success [OF limited success]
  have all: "job_run (Create ''clients'' (JObj [])) (rate_limited ?errs (Fulfilled ?v)) =
           (Job (Create ''clients'' (JObj [])) (Settled ?v),
            invoke (Create ''clients'' (JObj []))
              @ concat (replicate (length ?errs) (wait @ invoke (Create ''clients'' (JObj [])))))"
    and calls: "filter is_call (snd (job_run (Create ''clients'' (JObj []))
           (rate_limited ?errs (Fulfilled ?v)))) =
           replicate (length ?errs + 1) (Call (Create ''clients'' (JObj [])))"
    and waits: "\<forall>k < length ?errs. \<forall>xs. Timeout \<notin> set xs \<longrightarrow>
             job_run (Create ''clients'' (JObj []))
               (retries (take k ?errs) @ Response (Rejected (?errs ! k)) # xs) =
               (Job (Create ''clients'' (JObj [])) Sleeping,
                invoke (Create ''clients'' (JObj []))
                  @ concat (replicate k (wait @ invoke (Create ''clients'' (JObj [])))) @ wait)"
    by blast+
  from waits k quiet
  have sleeping: "job_run (Create ''clients'' (JObj []))
               (retries (take 1 ?errs) @ Response (Rejected (?errs ! 1)) # [Response (Fulfilled ?v)]) =
               (Job (Create ''clients'' (JObj [])) Sleeping,
                invoke (Create ''clients'' (JObj []))
                  @ concat (replicate 1 (wait @ invoke (Create ''clients'' (JObj [])))) @ wait)"
    by blast
  show ?thesis
    using all calls sleeping
    by (simp add: wait_def retries_def numeral_3_eq_3)
qed

text \<open>
  C2. An operation that fails with anything but status code 429 (a rejection of the
  request, or for a get a body that does not parse) is not invoked again, whatever
  happens afterwards: the run is its one invocation followed by the log of the error,
  and the job resolves with \<open>undefined\<close> (it does not throw).
\<close>

theorem no_retry_on_other_failure:
  assumes "attempt p r = Inl err" and "statusCode err \<noteq> Some 429"
  shows "job_run p (Response r # xs)
         = (Job p (Settled JUndefined), invoke p @ [LogError err])"
  using assms unfolding job_run_def
  by (simp add: handleError_def on_response_def settled_job_stays del: invoke.simps)

theorem no_retry_on_other_failure_witness:
  "attempt (Get ''connections'' (JStr ''con_1''))
     (Rejected (RemoteCallFailure (Some 500) ''boom'')) = Inl (RemoteCallFailure (Some 500) ''boom'')
   \<and> statusCode (RemoteCallFailure (Some 500) ''boom'') \<noteq> Some 429
   \<and> job_run (Get ''connections'' (JStr ''con_1''))
        [Response (Rejected (RemoteCallFailure (Some 500) ''boom'')), Timeout,
         Response (Fulfilled JNull)]
      = (Job (Get ''connections'' (JStr ''con_1'')) (Settled JUndefined),
         [Call (Get ''connections'' (JStr ''con_1'')),
          LogError (RemoteCallFailure (Some 500) ''boom'')])"
proof -
  have failure: "attempt (Get ''connections'' (JStr ''con_1''))
     (Rejected (RemoteCallFailure (Some 500) ''boom'')) = Inl (RemoteCallFailure (Some 500) ''boom'')"
    by simp
  have other: "statusCode (RemoteCallFailure (Some 500) ''boom'') \<noteq> Some 429"
    by simp
  show ?thesis
    using no_retry_on_other_failure [OF failure other, of "[Timeout, Response (Fulfilled JNull)]"]
    by simp
qed

section \<open>Properties of connection discovery\<close>

lemma map_throwing_objects:
  "map_throwing choice_of (map JObj kvss) =
     Inr (map (\<lambda>kvs. \<lparr>choice_name = own_property kvs ''name'',
                       choice_value = own_property kvs ''id''\<rparr>) kvss)"
  by (induction kvss) (simp_all add: choice_of_def and_then_def)

text \<open>
  C7. For a response that lists connections (an array of objects), whatever the
  strategy asked for, \<open>findConnections\<close> returns one choice per connection, in the order
  of the response, made of the connection's \<open>name\<close> and of its \<open>id\<close>. (The source calls
  the two fields of a choice \<open>name\<close> and \<open>value\<close>.)
\<close>

theorem findConnections_projects:
  "findConnections (Fulfilled (JArr (map JObj kvss))) =
     Inr (map (\<lambda>kvs. \<lparr>choice_name = own_property kvs ''name'',
                       choice_value = own_property kvs ''id''\<rparr>) kvss)"
  by (simp add: map_throwing_objects)

theorem findConnections_projects_witness:
  "findConnections
     (Fulfilled (JArr [JObj [(''id'', JStr ''con_1''), (''name'', JStr ''corp-ad'')],
                       JObj [(''id'', JStr ''con_2''), (''name'', JStr ''lab-ad'')]]))
   = Inr [\<lparr>choice_name = JStr ''corp-ad'', choice_value = JStr ''con_1''\<rparr>,
          \<lparr>choice_name = JStr ''lab-ad'', choice_value = JStr ''con_2''\<rparr>]"
  using findConnections_projects
    [of "[[(''id'', JStr ''con_1''), (''name'', JStr ''corp-ad'')],
          [(''id'', JStr ''con_2''), (''name'', JStr ''lab-ad'')]]"]
  by (simp add: own_property_def)

lemma step_Aborted_empty: "step cfg (Aborted err []) e = None"
  by (cases e) simp_all

lemma step_Exited: "step cfg (Exited n) e = None"
  by (cases e) simp_all

lemma after_discovery_Discovering:
  "after_discovery found = (Discovering f, acts) \<Longrightarrow> acts = []"
  by (induction found rule: after_discovery.induct)
     (auto simp: validateConnections_def split: validation.splits if_splits)

lemma after_enable_not_Discovering: "after_enable cfg arts s \<noteq> (Discovering f, acts)"
  by (auto simp: after_enable_def split: estate.splits sum.splits)

lemma after_provision_not_Discovering: "after_provision cfg sel a \<noteq> (Discovering f, acts)"
  by (auto simp: after_provision_def after_enable_not_Discovering
      split: astate.splits prod.splits)

lemma step_to_Discovering:
  assumes "step cfg s e = Some (Discovering f, acts)"
  shows "(\<exists>f0. s = Discovering f0) \<and> acts = []"
proof (cases s)
  case (Discovering f0)
  then show ?thesis using assms
    by (cases "(cfg, s, e)" rule: step.cases)
       (auto split: if_splits sum.splits dest: after_discovery_Discovering)
next
  case (Choosing a b c)
  then show ?thesis using assms
    by (cases e) (auto split: if_splits simp: createArtefacts_start_def)
next
  case (Provisioning sel a)
  then show ?thesis using assms
    by (auto simp: after_provision_not_Discovering split: option.splits prod.splits)
next
  case (Enabling arts s')
  then show ?thesis using assms
    by (auto simp: after_enable_not_Discovering split: option.splits prod.splits)
next
  case (WritingClient x)
  then show ?thesis using assms
    by (cases "(cfg, s, e)" rule: step.cases) auto
next
  case WritingServer
  then show ?thesis using assms
    by (cases "(cfg, s, e)" rule: step.cases) auto
next
  case Finished
  then show ?thesis using assms by (cases e) auto
next
  case (Exited n)
  then show ?thesis using assms by (cases e) auto
next
  case (Aborted err slots)
  then show ?thesis using assms
    by (cases e) (auto split: if_splits option.splits)
qed

lemma runSetup_snoc:
  "runSetup cfg (es @ [e]) = advance (step cfg) (runSetup cfg es) e"
  by (simp add: runSetup_def)

lemma runSetup_append:
  "runSetup cfg (es @ e # es') =
     foldl (advance (step cfg)) (advance (step cfg) (runSetup cfg es) e) es'"
  by (simp add: runSetup_def)

lemma discovering_no_create:
  "runSetup cfg es = (Discovering found, tr) \<Longrightarrow> \<forall>t \<in> set tr. \<not> is_create_call t"
proof (induction es arbitrary: found tr rule: rev_induct)
  case Nil
  then show ?case by (auto simp: runSetup_def runSetup_start_def)
next
  case (snoc e es)
  obtain s0 tr0 where r0: "runSetup cfg es = (s0, tr0)" by (cases "runSetup cfg es")
  show ?case
  proof (cases "step cfg s0 e")
    case None
    then have "runSetup cfg es = (Discovering found, tr)"
      using snoc.prems r0 by (simp add: runSetup_snoc advance_def)
    then show ?thesis by (rule snoc.IH)
  next
    case (Some r)
    obtain s' acts where r: "r = (s', acts)" by (cases r)
    have eq: "s' = Discovering found" "tr = tr0 @ In e # map Out acts"
      using snoc.prems r0 Some r by (simp_all add: runSetup_snoc advance_def)
    from step_to_Discovering [of cfg s0 e found acts] Some r eq(1)
    obtain f0 where f0: "s0 = Discovering f0" and acts: "acts = []" by auto
    have "\<forall>t \<in> set tr0. \<not> is_create_call t"
      using snoc.IH [of f0 tr0] r0 f0 by simp
    then show ?thesis using eq(2) acts by simp
  qed
qed

text \<open>
  C8. While the discoveries are pending, a failure \<open>err\<close> of \<open>findConnections\<close> on the
  response to one of them makes \<open>runSetup\<close> throw that very error: no \<open>handleError\<close>
  runs, so nothing is logged, no delay starts and no request is issued again, and
  whatever happens afterwards changes nothing. A rejected request is such a failure,
  with the error of the rejection, whatever its status code.
\<close>

theorem discovery_failure_propagates:
  assumes "runSetup cfg es = (Discovering found, tr)"
    and "i < length found" and "found ! i = None"
    and "findConnections r = Inl err"
  shows "runSetup cfg (es @ Task i (Response r) # es') =
           (Aborted err [], tr @ [In (Task i (Response r))])
       \<and> findConnections (Rejected e) = Inl e"
proof -
  have one: "advance (step cfg) (runSetup cfg es) (Task i (Response r)) =
      (Aborted err [], tr @ [In (Task i (Response r))])"
    unfolding assms(1) advance_def using assms(2-4) by simp
  have "runSetup cfg (es @ Task i (Response r) # es') =
           (Aborted err [], tr @ [In (Task i (Response r))])"
    unfolding runSetup_append one by (rule advance_stuck) (rule step_Aborted_empty)
  then show ?thesis by simp
qed

theorem discovery_failure_propagates_witness:
  "runSetup example_config
     ([] @ Task 0 (Response (Rejected (RemoteCallFailure (Some 429) ''Too Many Requests'')))
         # [Task 0 Timeout, Task 0 (Response (Fulfilled (JArr []))),
            Task 1 (Response (Fulfilled (JArr [])))])
   = (Aborted (RemoteCallFailure (Some 429) ''Too Many Requests'') [],
      example_opening
        @ [In (Task 0 (Response (Rejected (RemoteCallFailure (Some 429) ''Too Many Requests''))))])"
proof -
  have start: "runSetup example_config [] = (Discovering [None, None, None], example_opening)"
    by (simp add: runSetup_def runSetup_start_def example_opening_def)
  have i: "0 < length [None :: choice list option, None, None]" by simp
  have pending: "[None :: choice list option, None, None] ! 0 = None" by simp
  have failure: "findConnections (Rejected (RemoteCallFailure (Some 429) ''Too Many Requests''))
      = Inl (RemoteCallFailure (Some 429) ''Too Many Requests'')"
    by simp
  show ?thesis
    using discovery_failure_propagates [OF start i pending failure]
    by simp
qed

text \<open>
  C5. When the last discovery resolves and one of the three lists (ad, sms, email) is
  empty, the process logs the message of the first empty one and exits with status 0;
  whatever happens afterwards changes nothing, and the whole run holds no creation
  call.
\<close>

theorem missing_strategy_exits:
  assumes "runSetup cfg es = (Discovering found, tr)"
    and "i < length found" and "found ! i = None"
    and "findConnections r = Inr connections"
    and "found[i := Some connections] = [Some ad, Some sms, Some email]"
    and "ad = [] \<or> sms = [] \<or> email = []"
  shows "runSetup cfg (es @ Task i (Response r) # es') =
           (Exited 0,
            tr @ [In (Task i (Response r)),
                  Out (Log (if ad = [] then
                     ''AD connection is required. Please setup an AD connection and rerun the script.''
                   else if sms = [] then
                     ''SMS passwordless connection is required. Please setup passwordless SMS and rerun the script.''
                   else
                     ''Email passwordless connection is required. Please setup passwordless Email and rerun the script.'')),
                  Out (Exit 0)])
       \<and> filter is_create_call (snd (runSetup cfg (es @ Task i (Response r) # es'))) = []"
proof -
  let ?msg = "if ad = [] then
                     ''AD connection is required. Please setup an AD connection and rerun the script.''
                   else if sms = [] then
                     ''SMS passwordless connection is required. Please setup passwordless SMS and rerun the script.''
                   else
                     ''Email passwordless connection is required. Please setup passwordless Email and rerun the script.''"
  have v: "validateConnections ad sms email = ExitWith ?msg 0"
    using assms(6) by (auto simp: validateConnections_def)
  have st: "step cfg (Discovering found) (Task i (Response r)) =
      Some (Exited 0, [Log ?msg, Exit 0])"
    using assms(2-5) v by simp
  have one: "advance (step cfg) (runSetup cfg es) (Task i (Response r)) =
      (Exited 0, tr @ [In (Task i (Response r)), Out (Log ?msg), Out (Exit 0)])"
    unfolding assms(1) advance_def using st by simp
  have run: "runSetup cfg (es @ Task i (Response r) # es') =
      (Exited 0, tr @ [In (Task i (Response r)), Out (Log ?msg), Out (Exit 0)])"
    unfolding runSetup_append one by (rule advance_stuck) (rule step_Exited)
  have "\<forall>t \<in> set tr. \<not> is_create_call t"
    using assms(1) by (rule discovering_no_create)
  then have "filter is_create_call tr = []" by (simp add: filter_empty_conv)
  then show ?thesis unfolding run by simp
qed

theorem missing_strategy_exits_witness:
  "runSetup example_config
     ([Task 0 (Response (Fulfilled (JArr [JObj [(''id'', JStr ''con_1''), (''name'', JStr ''corp-ad'')]]))),
       Task 2 (Response (Fulfilled (JArr [JObj [(''id'', JStr ''con_3''), (''name'', JStr ''mail'')]])))]
      @ Task 1 (Response (Fulfilled (JArr []))) # [Answered 0 0 0, Task 1 Timeout])
   = (Exited 0,
      (example_opening
        @ [In (Task 0 (Response (Fulfilled (JArr [JObj [(''id'', JStr ''con_1''), (''name'', JStr ''corp-ad'')]])))),
           In (Task 2 (Response (Fulfilled (JArr [JObj [(''id'', JStr ''con_3''), (''name'', JStr ''mail'')]]))))])
        @ [In (Task 1 (Response (Fulfilled (JArr [])))),
           Out (Log ''SMS passwordless connection is required. Please setup passwordless SMS and rerun the script.''),
           Out (Exit 0)])"
proof -
  let ?ad = "[\<lparr>choice_name = JStr ''corp-ad'', choice_value = JStr ''con_1''\<rparr>]"
  let ?email = "[\<lparr>choice_name = JStr ''mail'', choice_value = JStr ''con_3''\<rparr>]"
  have run: "runSetup example_config
     [Task 0 (Response (Fulfilled (JArr [JObj [(''id'', JStr ''con_1''), (''name'', JStr ''corp-ad'')]]))),
      Task 2 (Response (Fulfilled (JArr [JObj [(''id'', JStr ''con_3''), (''name'', JStr ''mail'')]])))]
    = (Discovering [Some ?ad, None, Some ?email],
       example_opening
        @ [In (Task 0 (Response (Fulfilled (JArr [JObj [(''id'', JStr ''con_1''), (''name'', JStr ''corp-ad'')]])))),
           In (Task 2 (Response (Fulfilled (JArr [JObj [(''id'', JStr ''con_3''), (''name'', JStr ''mail'')]]))))])"
    by (simp add: runSetup_def runSetup_start_def example_opening_def advance_def
        choice_of_def and_then_def own_property_def)
  have i: "1 < length [Some ?ad, None, Some ?email]" by simp
  have pending: "[Some ?ad, None, Some ?email] ! 1 = None" by simp
  have found: "findConnections (Fulfilled (JArr [])) = Inr []" by simp
  have full: "[Some ?ad, None, Some ?email][1 := Some []] = [Some ?ad, Some [], Some ?email]"
    by simp
  have empty: "?ad = [] \<or> ([] :: choice list) = [] \<or> ?email = []" by simp
  show ?thesis
    using missing_strategy_exits [OF run i pending found full empty,
        of "[Answered 0 0 0, Task 1 Timeout]"]
    by simp
qed

section \<open>Properties of the artefact provisioner\<close>

lemma resolved_in_mono: "resolved_in i p v tr \<Longrightarrow> set tr \<subseteq> set tr' \<Longrightarrow> resolved_in i p v tr'"
  by (auto simp: resolved_in_def)

lemma all_resolved_mono: "all_resolved cfg tr \<Longrightarrow> set tr \<subseteq> set tr' \<Longrightarrow> all_resolved cfg tr'"
  unfolding all_resolved_def by (meson resolved_in_mono)

lemma backed_mono: "backed cfg tr pl \<Longrightarrow> set tr \<subseteq> set tr' \<Longrightarrow> backed cfg tr' pl"
  unfolding backed_def by (meson resolved_in_mono all_resolved_mono)

lemma grant_free_ordered: "grant_free tr \<Longrightarrow> ordered cfg tr"
  by (auto simp: grant_free_def ordered_def)

lemma ordered_append:
  assumes "ordered cfg tr" and "\<And>pl. grant_call pl \<in> set new \<Longrightarrow> backed cfg tr pl"
  shows "ordered cfg (tr @ new)"
  unfolding ordered_def
proof (intro allI impI)
  fix pre payload post
  assume eq: "tr @ new = pre @ grant_call payload # post"
  then consider (old) us where "tr = pre @ grant_call payload # us"
    | (new) us where "pre = tr @ us" "new = us @ grant_call payload # post"
    by (auto simp: append_eq_append_conv2 append_eq_Cons_conv)
  then show "backed cfg pre payload"
  proof cases
    case old
    then show ?thesis using assms(1) by (auto simp: ordered_def)
  next
    case new
    then have "backed cfg tr payload" using assms(2) by simp
    then show ?thesis using new(1) by (auto intro: backed_mono)
  qed
qed

lemma expected_not_grant: "expected cfg i p \<Longrightarrow> p \<noteq> Create ''client-grants'' pl"
  by (auto simp: expected_def createPortalClient_def createBackendClient_def
      createBackendAPI_def createRule_def split: if_splits)

lemma slot_ok_mono: "slot_ok cfg tr i sl \<Longrightarrow> set tr \<subseteq> set tr' \<Longrightarrow> slot_ok cfg tr' i sl"
  by (cases "(cfg, tr, i, sl)" rule: slot_ok.cases) (auto intro: resolved_in_mono)

lemma slot_step_calls:
  assumes "slot_ok cfg tr i sl" and "slot_step cfg sl x = Some (sl', acts)"
    and "Call q \<in> set acts"
  shows "expected cfg i q"
proof (cases sl)
  case (Reading t)
  then show ?thesis using assms
    by (cases "(cfg, sl, x)" rule: slot_step.cases)
       (auto simp: expected_def dest!: invoke_calls)
next
  case (Running j)
  obtain p ph where j: "j = Job p ph" by (cases j)
  from assms(2) Running j obtain j' where "job_step (Job p ph) x = Some (j', acts)"
    by (auto split: option.splits)
  then have "q = p" using assms(3) by (rule job_step_calls)
  then show ?thesis using assms(1) Running j by simp
next
  case (Failed e)
  then show ?thesis using assms by simp
qed

lemma slot_step_ok:
  assumes "slot_ok cfg tr i sl" and "slot_step cfg sl x = Some (sl', acts)"
  shows "slot_ok cfg (tr @ In (Task i x) # rest) i sl'"
proof (cases sl)
  case (Reading t)
  then show ?thesis using assms
    by (cases "(cfg, sl, x)" rule: slot_step.cases) (auto simp: expected_def)
next
  case (Running j)
  obtain p ph where j: "j = Job p ph" by (cases j)
  from assms(2) Running j obtain j' where js: "job_step (Job p ph) x = Some (j', acts)"
    and sl': "sl' = Running j'"
    by (auto split: option.splits)
  obtain q ph' where j': "j' = Job q ph'" by (cases j')
  have q: "q = p" using js j' by (auto dest: job_step_same_op)
  have ex: "expected cfg i p" using assms(1) Running j by simp
  have "resolved_in i p v (tr @ In (Task i x) # rest)" if "ph' = Settled v" for v
  proof -
    from js j' that q obtain r where "x = Response r" "fst (on_response p r) = Settled v"
      by (auto dest: job_step_settled)
    then show ?thesis by (auto simp: resolved_in_def)
  qed
  then show ?thesis using ex sl' j' q by simp
next
  case (Failed e)
  then show ?thesis using assms by simp
qed

lemma slots_ok_update:
  assumes "slots_ok cfg tr slots" and "i < length slots"
    and "slot_step cfg (slots ! i) x = Some (sl', acts)"
  shows "slots_ok cfg (tr @ In (Task i x) # rest) (slots[i := sl'])"
  unfolding slots_ok_def
proof (intro conjI allI impI)
  show "length (slots[i := sl']) = 4" using assms(1) by (simp add: slots_ok_def)
next
  fix k :: nat assume k: "k < 4"
  have ok: "slot_ok cfg tr k (slots ! k)" using assms(1) k by (simp add: slots_ok_def)
  show "slot_ok cfg (tr @ In (Task i x) # rest) k (slots[i := sl'] ! k)"
  proof (cases "k = i")
    case True
    then show ?thesis
      using assms(2,3) ok slot_step_ok [of cfg tr i "slots ! i" x sl' acts rest]
      by simp
  next
    case False
    then show ?thesis using ok by (auto intro: slot_ok_mono)
  qed
qed

lemma settled_Some: "settled sl = Some v \<Longrightarrow> \<exists>p. sl = Running (Job p (Settled v))"
  by (cases sl rule: settled.cases) auto

lemma results_four:
  assumes "slots_ok cfg tr slots" and "results slots = Some vs"
  shows "\<exists>v0 v1 v2 v3. vs = [v0, v1, v2, v3] \<and> all_resolved cfg tr
           \<and> resolved_in 1 createBackendClient v1 tr"
proof -
  from assms(1) obtain s0 s1 s2 s3 where slots: "slots = [s0, s1, s2, s3]"
    by (auto simp: slots_ok_def length_Suc_conv numeral_eq_Suc)
  from assms(2) slots obtain v0 v1 v2 v3 where vs: "vs = [v0, v1, v2, v3]"
    and st: "settled s0 = Some v0" "settled s1 = Some v1" "settled s2 = Some v2"
      "settled s3 = Some v3"
    by (auto split: option.splits)
  from st obtain p0 p1 p2 p3 where ps: "s0 = Running (Job p0 (Settled v0))"
     "s1 = Running (Job p1 (Settled v1))" "s2 = Running (Job p2 (Settled v2))"
     "s3 = Running (Job p3 (Settled v3))"
    by (auto dest!: settled_Some)
  have all: "\<forall>i<4. slot_ok cfg tr i (slots ! i)" using assms(1) by (simp add: slots_ok_def)
  have "slot_ok cfg tr 0 (slots ! 0)" "slot_ok cfg tr 1 (slots ! 1)"
    "slot_ok cfg tr 2 (slots ! 2)" "slot_ok cfg tr 3 (slots ! 3)"
    using all by simp_all
  then have "slot_ok cfg tr 0 s0" "slot_ok cfg tr 1 s1" "slot_ok cfg tr 2 s2"
    "slot_ok cfg tr 3 s3"
    using slots by simp_all
  then show ?thesis using ps vs by (auto simp: all_resolved_def expected_def)
qed

lemma grant_free_step:
  assumes "grant_free tr" and "slot_ok cfg tr i sl" and "slot_step cfg sl x = Some (sl', acts)"
  shows "grant_free (tr @ In e # map Out acts)"
proof -
  have "Call (Create ''client-grants'' pl) \<notin> set acts" for pl
    using slot_step_calls [OF assms(2,3)] expected_not_grant by blast
  then show ?thesis using assms(1) by (auto simp: grant_free_def grant_call_def)
qed

lemma createMgmtApiGrant_payload:
  "createMgmtApiGrant cfg v = Inr p \<Longrightarrow>
     \<exists>payload. p = Create ''client-grants'' payload
        \<and> getprop payload ''client_id'' = getprop v ''client_id''"
  by (auto simp: createMgmtApiGrant_def and_then_def own_property_def split: sum.splits)

lemma grant_in_invoke:
  "grant_call pl \<in> set (map Out (invoke (Create ''client-grants'' payload))) \<Longrightarrow> pl = payload"
  by (auto simp: grant_call_def)

lemma ainv_after_slot:
  assumes ok: "slots_ok cfg tr1 slots'" and gf: "grant_free tr1"
    and after: "after_slot cfg slots' sl = (s', acts2)"
  shows "ainv cfg s' (tr1 @ map Out acts2)"
proof (cases "\<exists>err. sl = Failed err")
  case True
  then show ?thesis using after ok gf by (auto simp: after_slot_def)
next
  case False
  then have after': "(case results slots' of None \<Rightarrow> (Stage1 slots', [])
      | Some vs \<Rightarrow> after_all cfg slots' vs) = (s', acts2)"
    using after by (cases sl) (simp_all add: after_slot_def)
  show ?thesis
  proof (cases "results slots'")
    case None
    then show ?thesis using after' ok gf by auto
  next
    case (Some vs)
    from results_four [OF ok Some] obtain v0 v1 v2 v3 where vs: "vs = [v0, v1, v2, v3]"
      and all: "all_resolved cfg tr1" and b: "resolved_in 1 createBackendClient v1 tr1"
      by blast
    show ?thesis
    proof (cases "createMgmtApiGrant cfg v1")
      case (Inl err)
      then show ?thesis using after' Some vs ok gf by (auto simp: after_all_def item_def)
    next
      case (Inr p)
      from createMgmtApiGrant_payload [OF Inr] obtain payload
        where p: "p = Create ''client-grants'' payload"
          and cid: "getprop payload ''client_id'' = getprop v1 ''client_id''"
        by blast
      have bk: "backed cfg tr1 payload" using all b cid by (auto simp: backed_def)
      have s': "s' = Stage2 v0 v1 v2 v3 (Job p InFlight)" and a2: "acts2 = invoke p"
        using after' Some vs Inr by (auto simp: after_all_def item_def)
      have "ordered cfg (tr1 @ map Out (invoke p))"
      proof (rule ordered_append)
        show "ordered cfg tr1" using gf by (rule grant_free_ordered)
      next
        fix pl assume "grant_call pl \<in> set (map Out (invoke p))"
        then have "pl = payload" unfolding p by (rule grant_in_invoke)
        then show "backed cfg tr1 pl" using bk by simp
      qed
      moreover have "backed cfg (tr1 @ map Out (invoke p)) payload"
        using bk by (rule backed_mono) simp
      ultimately show ?thesis using s' a2 p by simp
    qed
  qed
qed

lemma ainv_step:
  assumes "ainv cfg s tr" and "astep cfg s e = Some (s', acts)"
  shows "ainv cfg s' (tr @ In e # map Out acts)"
proof (cases s)
  case (Stage1 slots)
  from assms(2) Stage1 obtain i x where e: "e = Task i x"
    by (cases e) simp_all
  from assms(2) Stage1 e obtain sl acts1 acts2 where i: "i < length slots"
    and ss: "slot_step cfg (slots ! i) x = Some (sl, acts1)"
    and after: "after_slot cfg (slots[i := sl]) sl = (s', acts2)"
    and acts: "acts = acts1 @ acts2"
    by (auto split: if_splits option.splits prod.splits)
  have ok: "slots_ok cfg tr slots" and gf: "grant_free tr"
    using assms(1) Stage1 by simp_all
  have i4: "i < 4" using i ok by (simp add: slots_ok_def)
  have ok1: "slots_ok cfg (tr @ In (Task i x) # map Out acts1) (slots[i := sl])"
    using ok i ss by (rule slots_ok_update)
  have "slot_ok cfg tr i (slots ! i)" using ok i4 by (simp add: slots_ok_def)
  then have gf1: "grant_free (tr @ In (Task i x) # map Out acts1)"
    using gf ss by (auto intro: grant_free_step)
  have "ainv cfg s' ((tr @ In (Task i x) # map Out acts1) @ map Out acts2)"
    using ok1 gf1 after by (rule ainv_after_slot)
  then show ?thesis using e acts by simp
next
  case (Stage2 v0 v1 v2 v3 j)
  obtain p ph where j: "j = Job p ph" by (cases j)
  from assms(2) Stage2 obtain i x where e: "e = Task i x"
    by (cases e) simp_all
  from assms(2) Stage2 e j obtain j' where js: "job_step (Job p ph) x = Some (j', acts)"
    by (auto split: if_splits option.splits job.splits phase.splits)
  obtain q ph' where j': "j' = Job q ph'" by (cases j')
  have q: "q = p" using js j' by (auto dest: job_step_same_op)
  from assms(1) Stage2 j obtain payload where ord: "ordered cfg tr"
    and p: "p = Create ''client-grants'' payload" and bk: "backed cfg tr payload"
    by auto
  have ord': "ordered cfg (tr @ In e # map Out acts)"
  proof (rule ordered_append [OF ord])
    fix pl assume "grant_call pl \<in> set (In e # map Out acts)"
    then have "Call (Create ''client-grants'' pl) \<in> set acts"
      by (auto simp: grant_call_def)
    then have "Create ''client-grants'' pl = p" using js by (auto dest: job_step_calls)
    then show "backed cfg tr pl" using p bk by simp
  qed
  have bk': "backed cfg (tr @ In e # map Out acts) payload"
    using bk by (rule backed_mono) auto
  show ?thesis
  proof (cases ph')
    case (Settled v)
    then have "s' = Returned \<lparr>portal = v0, backend = v1, api = v2, rule = v3, mgmt_grant = v\<rparr>"
      using assms(2) Stage2 e j js j' by (auto split: if_splits)
    then show ?thesis using ord' by simp
  next
    case InFlight
    then have "s' = Stage2 v0 v1 v2 v3 (Job p InFlight)"
      using assms(2) Stage2 e j js j' q by (auto split: if_splits)
    then show ?thesis using ord' bk' p by simp
  next
    case Sleeping
    then have "s' = Stage2 v0 v1 v2 v3 (Job p Sleeping)"
      using assms(2) Stage2 e j js j' q by (auto split: if_splits)
    then show ?thesis using ord' bk' p by simp
  qed
next
  case (Returned arts)
  then show ?thesis using assms(2) by simp
next
  case (Threw err slots)
  from assms(2) Threw obtain i x where e: "e = Task i x"
    by (cases e) simp_all
  from assms(2) Threw e obtain sl where i: "i < length slots"
    and ss: "slot_step cfg (slots ! i) x = Some (sl, acts)"
    and s': "s' = Threw err (slots[i := sl])"
    by (auto split: if_splits option.splits)
  have ok: "slots_ok cfg tr slots" and gf: "grant_free tr"
    using assms(1) Threw by simp_all
  have i4: "i < 4" using i ok by (simp add: slots_ok_def)
  have ok1: "slots_ok cfg (tr @ In (Task i x) # map Out acts) (slots[i := sl])"
    using ok i ss by (rule slots_ok_update)
  have "slot_ok cfg tr i (slots ! i)" using ok i4 by (simp add: slots_ok_def)
  then have gf1: "grant_free (tr @ In (Task i x) # map Out acts)"
    using gf ss by (auto intro: grant_free_step)
  show ?thesis using ok1 gf1 s' e by simp
qed

lemma ainv_start:
  "ainv cfg (fst createArtefacts_start) (map Out (snd createArtefacts_start))"
proof -
  have "slot_ok cfg tr i ([Reading PortalLogin, Running (Job createBackendClient InFlight),
          Running (Job createBackendAPI InFlight), Reading IssueScopesRule] ! i)"
    if "i < 4" for i tr
  proof -
    from that consider "i = 0" | "i = 1" | "i = 2" | "i = 3" by linarith
    then show ?thesis by cases (simp_all add: expected_def)
  qed
  moreover have "grant_free (map Out (snd createArtefacts_start))"
    by (auto simp: grant_free_def grant_call_def createArtefacts_start_def
        createBackendClient_def createBackendAPI_def)
  ultimately show ?thesis by (simp add: createArtefacts_start_def slots_ok_def)
qed

lemma createArtefacts_ainv:
  "ainv cfg (fst (createArtefacts cfg es)) (snd (createArtefacts cfg es))"
proof (induction es rule: rev_induct)
  case Nil
  then show ?case using ainv_start by (simp add: createArtefacts_def)
next
  case (snoc e es)
  have run: "createArtefacts cfg (es @ [e]) = advance (astep cfg) (createArtefacts cfg es) e"
    by (simp add: createArtefacts_def)
  show ?case
  proof (cases "astep cfg (fst (createArtefacts cfg es)) e")
    case None
    then show ?thesis using snoc.IH by (simp add: run advance_def)
  next
    case (Some r)
    obtain s' acts where r: "r = (s', acts)" by (cases r)
    have "ainv cfg s' (snd (createArtefacts cfg es) @ In e # map Out acts)"
      using snoc.IH Some r by (auto intro: ainv_step)
    then show ?thesis using Some r by (simp add: run advance_def)
  qed
qed

lemma ainv_ordered: "ainv cfg s tr \<Longrightarrow> ordered cfg tr"
  by (cases "(cfg, s, tr)" rule: ainv.cases) (auto intro: grant_free_ordered)

lemma createArtefacts_ordered: "ordered cfg (snd (createArtefacts cfg es))"
  using createArtefacts_ainv by (rule ainv_ordered)

lemma invoke_createBackendClient:
  "invoke createBackendClient = [Log ''creating clients...'', Call createBackendClient]"
  by (simp add: createBackendClient_def)

lemma invoke_createBackendAPI:
  "invoke createBackendAPI = [Log ''creating resource-servers...'', Call createBackendAPI]"
  by (simp add: createBackendAPI_def)

lemma invoke_createPortalClient:
  "invoke (createPortalClient cfg text) =
     [Log ''creating clients...'', Call (createPortalClient cfg text)]"
  by (simp add: createPortalClient_def)

lemma invoke_createRule:
  "invoke (createRule text) = [Log ''creating rules...'', Call (createRule text)]"
  by (simp add: createRule_def)

lemma example_run:
  "createArtefacts example_config example_provisioning =
     (Stage2 example_portal example_backend (JObj [(''id'', JStr ''A1'')]) JUndefined
        (Job (Create ''client-grants'' example_grant) InFlight),
      example_trace @ Out (Call (Create ''client-grants'' example_grant)) # [])"
  by (simp add: createArtefacts_def createArtefacts_start_def example_provisioning_def
      example_trace_def example_grant_def example_backend_def example_config_def
      advance_def after_slot_def after_all_def item_def createMgmtApiGrant_def and_then_def
      own_property_def
      handleError_def DELAY_SECONDS_def invoke_createBackendClient invoke_createBackendAPI
      invoke_createPortalClient invoke_createRule)

text \<open>
  C3. In every run of \<open>createArtefacts\<close>, whatever precedes a create call for a client
  grant holds the response on which the backend client's creation (task 1) resolved,
  with some value \<open>v\<close>, and the \<open>client_id\<close> of the grant's payload is the \<open>client_id\<close> of
  \<open>v\<close>.
\<close>

theorem grant_after_backend:
  assumes "snd (createArtefacts cfg es) =
             pre @ Out (Call (Create ''client-grants'' payload)) # post"
  shows "\<exists>v. resolved_in 1 createBackendClient v pre
            \<and> getprop payload ''client_id'' = getprop v ''client_id''"
  using createArtefacts_ordered [of cfg es] assms
  by (auto simp: ordered_def backed_def grant_call_def)

theorem grant_after_backend_witness:
  "snd (createArtefacts example_config example_provisioning) =
     example_trace @ Out (Call (Create ''client-grants'' example_grant)) # []
   \<and> (\<exists>v. resolved_in 1 createBackendClient v example_trace
          \<and> getprop example_grant ''client_id'' = getprop v ''client_id'')
   \<and> resolved_in 1 createBackendClient example_backend example_trace
   \<and> getprop example_grant ''client_id'' = Inr (JStr ''B1'')
   \<and> getprop example_backend ''client_id'' = Inr (JStr ''B1'')"
proof -
  have run: "snd (createArtefacts example_config example_provisioning) =
     example_trace @ Out (Call (Create ''client-grants'' example_grant)) # []"
    by (simp add: example_run)
  have "resolved_in 1 createBackendClient example_backend example_trace"
    by (simp add: resolved_in_def example_trace_def)
  then show ?thesis
    using run grant_after_backend [OF run]
    by (simp add: example_grant_def example_backend_def own_property_def)
qed

text \<open>
  C9. In every run of \<open>createArtefacts\<close>, whatever precedes a create call for a client
  grant holds, for each of the four creations of the first stage (portal client,
  backend client, backend API, rule), the response on which it resolved: while one of
  them is pending or retrying, no grant call is issued, even when the backend client
  has resolved.
\<close>

theorem grant_after_all_four:
  assumes "snd (createArtefacts cfg es) =
             pre @ Out (Call (Create ''client-grants'' payload)) # post"
  shows "all_resolved cfg pre"
  using createArtefacts_ordered [of cfg es] assms
  by (auto simp: ordered_def backed_def grant_call_def)

theorem grant_after_all_four_witness:
  "snd (createArtefacts example_config example_provisioning) =
     example_trace @ Out (Call (Create ''client-grants'' example_grant)) # []
   \<and> all_resolved example_config example_trace
   \<and> resolved_in 1 createBackendClient example_backend
       (snd (createArtefacts example_config (take 7 example_provisioning)))
   \<and> filter is_create_call (snd (createArtefacts example_config (take 7 example_provisioning)))
       = [Out (Call createBackendClient), Out (Call createBackendAPI),
          Out (Call (createPortalClient example_config ''<html/>'')),
          Out (Call (createRule ''function(){}'')),
          Out (Call createBackendAPI)]"
proof -
  have run: "snd (createArtefacts example_config example_provisioning) =
     example_trace @ Out (Call (Create ''client-grants'' example_grant)) # []"
    by (simp add: example_run)
  have early: "snd (createArtefacts example_config (take 7 example_provisioning)) =
     butlast (butlast example_trace)"
    by (simp add: createArtefacts_def createArtefacts_start_def example_provisioning_def
      example_trace_def advance_def after_slot_def
      handleError_def DELAY_SECONDS_def invoke_createBackendClient invoke_createBackendAPI
      invoke_createPortalClient invoke_createRule)
  have a: "resolved_in 1 createBackendClient example_backend (butlast (butlast example_trace))"
    by (simp add: resolved_in_def example_trace_def)
  have b: "filter is_create_call (butlast (butlast example_trace)) =
       [Out (Call createBackendClient), Out (Call createBackendAPI),
        Out (Call (createPortalClient example_config ''<html/>'')),
        Out (Call (createRule ''function(){}'')),
        Out (Call createBackendAPI)]"
    by (simp add: example_trace_def createBackendClient_def createBackendAPI_def
        createPortalClient_def createRule_def)
  show ?thesis
    using run grant_after_all_four [OF run] a b unfolding early by simp
qed

section \<open>Properties of the connection enabler\<close>

lemma patch_of_connection:
  assumes "own_property kvs ''enabled_clients'' = JArr prior"
    and "getprop (portal arts) ''client_id'' = Inr portal_id"
    and "getprop (backend arts) ''client_id'' = Inr backend_id"
  shows "patch_of arts (JObj kvs) = Inr (spec_patch portal_id backend_id kvs prior)"
  using assms by (simp add: patch_of_def and_then_def lodash_concat_def spec_patch_def)

lemma patches_of_connections:
  assumes "map (\<lambda>kvs. own_property kvs ''enabled_clients'') kvss = map JArr priors"
    and "getprop (portal arts) ''client_id'' = Inr portal_id"
    and "getprop (backend arts) ''client_id'' = Inr backend_id"
  shows "patches arts (map JObj kvss) =
           Inr (map2 (spec_patch portal_id backend_id) kvss priors)"
  using assms(1)
proof (induction kvss arbitrary: priors)
  case Nil
  then show ?case by (simp add: patches_def)
next
  case (Cons kvs kvss)
  from Cons.prems obtain prior rest where priors: "priors = prior # rest"
    and prior: "own_property kvs ''enabled_clients'' = JArr prior"
    and rest: "map (\<lambda>kvs. own_property kvs ''enabled_clients'') kvss = map JArr rest"
    by (cases priors) auto
  have "patches arts (map JObj kvss) = Inr (map2 (spec_patch portal_id backend_id) kvss rest)"
    using rest by (rule Cons.IH)
  then show ?case
    using patch_of_connection [OF prior assms(2,3)] priors
    by (simp add: patches_def and_then_def)
qed

lemma fetching_step:
  assumes "fetching sl" and "slot_step cfg sl x = Some (sl', acts)"
  shows "fetching sl' \<and> (\<forall>t \<in> set (map Out acts). \<not> is_patch_call t)"
proof -
  from assms(1) obtain ident ph where sl: "sl = Running (Job (Get ''connections'' ident) ph)"
    by (auto simp: fetching_def)
  from assms(2) sl obtain j'
    where js: "job_step (Job (Get ''connections'' ident) ph) x = Some (j', acts)"
      and sl': "sl' = Running j'"
    by (auto split: option.splits)
  obtain q ph' where j': "j' = Job q ph'" by (cases j')
  have q: "q = Get ''connections'' ident" using js j' by (auto dest: job_step_same_op)
  have "\<not> is_patch_call (Out a)" if "a \<in> set acts" for a
  proof (cases a)
    case (Call p)
    then have "p = Get ''connections'' ident" using js that by (auto dest: job_step_calls)
    then show ?thesis using Call by simp
  qed simp_all
  then show ?thesis using sl' j' q by (auto simp: fetching_def)
qed

lemma first_failure_None: "first_failure sls = None \<Longrightarrow> Failed err \<notin> set sls"
  by (induction sls rule: first_failure.induct) auto

lemma first_failure_Running: "first_failure (map (\<lambda>p. Running (Job p InFlight)) ps) = None"
  by (induction ps) simp_all

lemma await_all_not_Fetching:
  "await_all Patching started \<noteq> (Fetching slots, acts)"
  by (auto simp: await_all_def split: option.splits)

lemma launch_fetch:
  "(\<exists>err. fst (launch cfg (Get ''connections'' ident)) = Failed err)
   \<or> fetching (fst (launch cfg (Get ''connections'' ident)))"
  by (auto simp: launch_def fetching_def split: sum.splits)

lemma invoke_patches:
  "concat (map (\<lambda>(ident, patch). invoke (Patch ''connections'' ident patch)) ps) =
     map (\<lambda>(ident, patch). Call (Patch ''connections'' ident patch)) ps"
  by (induction ps) auto

lemma launch_fetch_quiet:
  "\<forall>t \<in> set (map Out (snd (launch cfg (Get ''connections'' ident)))). \<not> is_patch_call t"
  by (auto simp: launch_def split: sum.splits)

lemma launch_started:
  "request_of cfg p = Inr req \<Longrightarrow> launch cfg p = (Running (Job p InFlight), invoke p)"
  by (simp add: launch_def)

lemma start_all_started:
  assumes "\<forall>p \<in> set ps. \<exists>req. request_of cfg p = Inr req"
  shows "start_all cfg ps = (map (\<lambda>p. Running (Job p InFlight)) ps, concat (map invoke ps))"
  using assms by (induction ps) (auto simp: start_all_def launch_started)

lemma enableConnections_start_Fetching:
  assumes "enableConnections_start cfg sel = (Fetching slots, acts)"
  shows "(\<forall>sl \<in> set slots. fetching sl) \<and> (\<forall>t \<in> set (map Out acts). \<not> is_patch_call t)"
proof -
  let ?ps = "map (Get ''connections'')
     [selected_ad_connection sel, selected_sms_connection sel, selected_email_connection sel]"
  from assms have ff: "first_failure (fst (start_all cfg ?ps)) = None"
    and slots: "slots = fst (start_all cfg ?ps)" and acts: "acts = snd (start_all cfg ?ps)"
    by (auto simp: enableConnections_start_def await_all_def split: option.splits)
  have "fetching sl" if "sl \<in> set slots" for sl
  proof -
    from that slots obtain ident where sl: "sl = fst (launch cfg (Get ''connections'' ident))"
      by (auto simp: start_all_def)
    have "sl \<noteq> Failed err" for err
      using first_failure_None [OF ff, of err] that slots by auto
    then show ?thesis using launch_fetch [of cfg ident] sl by auto
  qed
  moreover have "\<forall>t \<in> set (map Out acts). \<not> is_patch_call t"
    using acts launch_fetch_quiet [of cfg] by (auto simp: start_all_def)
  ultimately show ?thesis by blast
qed

lemma estep_to_Fetching:
  assumes "estep cfg arts s e = Some (Fetching slots', acts)"
  shows "\<exists>slots i x sl. s = Fetching slots \<and> e = Task i x \<and> i < length slots
           \<and> slot_step cfg (slots ! i) x = Some (sl, acts) \<and> slots' = slots[i := sl]"
proof (cases s)
  case (Fetching slots)
  from assms Fetching obtain i x where e: "e = Task i x" by (cases e) simp_all
  show ?thesis using assms Fetching e
    by (auto simp: after_fetch_def await_all_not_Fetching
        split: if_splits option.splits prod.splits sum.splits)
next
  case (Patching slots)
  from assms Patching obtain i x where e: "e = Task i x" by (cases e) simp_all
  show ?thesis using assms Patching e
    by (auto simp: after_patch_def split: if_splits option.splits prod.splits)
next
  case (Enabled vs)
  then show ?thesis using assms by simp
next
  case (EThrew err)
  then show ?thesis using assms by simp
next
  case (ERejected err slots)
  from assms ERejected obtain i x where e: "e = Task i x" by (cases e) simp_all
  show ?thesis using assms ERejected e
    by (auto split: if_splits option.splits prod.splits)
qed

lemma enableConnections_snoc:
  "enableConnections cfg arts sel (es @ [e]) =
     advance (estep cfg arts) (enableConnections cfg arts sel es) e"
  by (simp add: enableConnections_def)

lemma enableConnections_append:
  "enableConnections cfg arts sel (es @ e # es') =
     foldl (advance (estep cfg arts))
       (advance (estep cfg arts) (enableConnections cfg arts sel es) e) es'"
  by (simp add: enableConnections_def)

lemma fetching_invariant:
  "enableConnections cfg arts sel es = (Fetching slots, tr) \<Longrightarrow>
     (\<forall>sl \<in> set slots. fetching sl) \<and> (\<forall>t \<in> set tr. \<not> is_patch_call t)"
proof (induction es arbitrary: slots tr rule: rev_induct)
  case Nil
  then have "enableConnections_start cfg sel = (Fetching slots, snd (enableConnections_start cfg sel))"
    and "tr = map Out (snd (enableConnections_start cfg sel))"
    by (simp_all add: enableConnections_def prod_eq_iff)
  then show ?case using enableConnections_start_Fetching by blast
next
  case (snoc e es)
  obtain s0 tr0 where r0: "enableConnections cfg arts sel es = (s0, tr0)"
    by (cases "enableConnections cfg arts sel es")
  show ?case
  proof (cases "estep cfg arts s0 e")
    case None
    then have "enableConnections cfg arts sel es = (Fetching slots, tr)"
      using snoc.prems r0 by (simp add: enableConnections_snoc advance_def)
    then show ?thesis by (rule snoc.IH)
  next
    case (Some r)
    obtain s' acts where r: "r = (s', acts)" by (cases r)
    have eq: "s' = Fetching slots" "tr = tr0 @ In e # map Out acts"
      using snoc.prems r0 Some r by (simp_all add: enableConnections_snoc advance_def)
    from estep_to_Fetching [of cfg arts s0 e slots acts] Some r eq(1)
    obtain slots0 i x sl where s0: "s0 = Fetching slots0" and e: "e = Task i x"
      and i: "i < length slots0" and ss: "slot_step cfg (slots0 ! i) x = Some (sl, acts)"
      and slots: "slots = slots0[i := sl]"
      by auto
    have ih: "(\<forall>sl \<in> set slots0. fetching sl) \<and> (\<forall>t \<in> set tr0. \<not> is_patch_call t)"
      using snoc.IH [of slots0 tr0] r0 s0 by simp
    then have "fetching (slots0 ! i)" using i by simp
    from fetching_step [OF this ss]
    have new: "fetching sl" "\<forall>t \<in> set (map Out acts). \<not> is_patch_call t" by simp_all
    have "\<forall>sl' \<in> set slots. fetching sl'"
      using ih new(1) slots by (auto dest!: set_update_subset_insert [THEN subsetD])
    then show ?thesis using ih new(2) eq(2) e by auto
  qed
qed

lemma getprop_error: "getprop v k = Inl e \<Longrightarrow> e = TypeError"
  by (cases "(v, k)" rule: getprop.cases) simp_all

lemma patch_of_error: "patch_of arts c = Inl e \<Longrightarrow> e = TypeError"
  by (auto simp: patch_of_def and_then_def split: sum.splits dest: getprop_error)

lemma map_throwing_error:
  "map_throwing f xs = Inl e \<Longrightarrow> \<exists>x \<in> set xs. f x = Inl e"
  by (induction xs) (auto simp: and_then_def split: sum.splits)

lemma map_throwing_ok:
  "map_throwing f xs = Inr ys \<Longrightarrow> x \<in> set xs \<Longrightarrow> \<exists>y. f x = Inr y"
  by (induction xs arbitrary: ys) (auto simp: and_then_def split: sum.splits)

lemma patches_undefined:
  assumes "JUndefined \<in> set cons"
  shows "patches arts cons = Inl TypeError"
proof (cases "patches arts cons")
  case (Inl e)
  then show ?thesis
    by (auto simp: patches_def dest!: map_throwing_error patch_of_error)
next
  case (Inr ps)
  then have "\<exists>y. patch_of arts JUndefined = Inr y"
    using assms unfolding patches_def by (rule map_throwing_ok)
  then show ?thesis by (simp add: patch_of_def and_then_def)
qed

lemma estep_EThrew: "estep cfg arts (EThrew err) e = None"
  by (cases e) simp_all

text \<open>
  C4. When the occurrence that completes the fetch phase of \<open>enableConnections\<close> leaves
  the fetched connections \<open>kvss\<close> (objects whose \<open>enabled_clients\<close> are the arrays
  \<open>priors\<close> and whose ids are strings), and the portal and backend clients of the
  artefacts have the ids \<open>portal_id\<close> and \<open>backend_id\<close>, then the patches derived are,
  connection by connection and in the order of the fetches, the connection's id with
  \<open>enabled_clients\<close> the prior list followed by \<open>portal_id\<close> and then \<open>backend_id\<close> (nothing
  removed) and with \<open>metadata\<close> \<open>{ username_field_name: "sAMAccountName" }\<close> when the
  connection's strategy is \<open>"ad"\<close> and the empty object otherwise; and the patch calls
  issued at that moment are exactly these, one per connection.
\<close>

theorem enableConnections_derives_patches:
  assumes "enableConnections cfg arts sel es = (Fetching slots, tr)"
    and "i < length slots"
    and "slot_step cfg (slots ! i) x = Some (sl, acts)"
    and "results (slots[i := sl]) = Some (map JObj kvss)"
    and "map (\<lambda>kvs. own_property kvs ''enabled_clients'') kvss = map JArr priors"
    and "map (\<lambda>kvs. own_property kvs ''id'') kvss = map JStr idents"
    and "getprop (portal arts) ''client_id'' = Inr portal_id"
    and "getprop (backend arts) ''client_id'' = Inr backend_id"
  shows "patches arts (map JObj kvss) =
           Inr (map2 (spec_patch portal_id backend_id) kvss priors)
       \<and> enableConnections cfg arts sel (es @ [Task i x]) =
           (Patching
              (map (\<lambda>(ident, patch). Running (Job (Patch ''connections'' ident patch) InFlight))
                 (map2 (spec_patch portal_id backend_id) kvss priors)),
            tr @ In (Task i x) # map Out acts
              @ map (\<lambda>(ident, patch). Out (Call (Patch ''connections'' ident patch)))
                  (map2 (spec_patch portal_id backend_id) kvss priors))"
proof -
  define ps where "ps = map2 (spec_patch portal_id backend_id) kvss priors"
  define ops where "ops = map (\<lambda>(ident, patch). Patch ''connections'' ident patch) ps"
  have derived: "patches arts (map JObj kvss) = Inr ps"
    unfolding ps_def using assms(5,7,8) by (rule patches_of_connections)
  have "\<exists>req. request_of cfg p = Inr req" if "p \<in> set ops" for p
  proof -
    from that obtain kvs prior where "kvs \<in> set kvss"
      and p: "p = Patch ''connections'' (own_property kvs ''id'')
                   (snd (spec_patch portal_id backend_id kvs prior))"
      unfolding ops_def ps_def by (auto simp: spec_patch_def dest!: set_zip_leftD)
    then have "own_property kvs ''id'' \<in> set (map JStr idents)"
      using assms(6) by (metis (no_types, lifting) image_eqI list.set_map)
    then obtain s where "own_property kvs ''id'' = JStr s" by auto
    then show ?thesis using p by (simp add: and_then_def)
  qed
  then have "\<forall>p \<in> set ops. \<exists>req. request_of cfg p = Inr req" by blast
  then have started: "start_all cfg ops =
      (map (\<lambda>p. Running (Job p InFlight)) ops, concat (map invoke ops))"
    by (rule start_all_started)
  have calls: "concat (map invoke ops) =
      map (\<lambda>(ident, patch). Call (Patch ''connections'' ident patch)) ps"
    unfolding ops_def using invoke_patches [of ps]
    by (simp add: map_map comp_def case_prod_unfold)
  have slots': "map (\<lambda>p. Running (Job p InFlight)) ops =
      map (\<lambda>(ident, patch). Running (Job (Patch ''connections'' ident patch) InFlight)) ps"
    unfolding ops_def by (simp add: map_map comp_def case_prod_unfold)
  have "await_all Patching (start_all cfg ops) =
      (Patching (map (\<lambda>p. Running (Job p InFlight)) ops), concat (map invoke ops))"
    unfolding started by (simp add: await_all_def first_failure_Running)
  then have after: "after_fetch cfg arts (slots[i := sl]) =
      (Patching (map (\<lambda>p. Running (Job p InFlight)) ops), concat (map invoke ops))"
    unfolding after_fetch_def ops_def using assms(4) derived by simp
  have st: "estep cfg arts (Fetching slots) (Task i x) =
      Some (Patching (map (\<lambda>p. Running (Job p InFlight)) ops), acts @ concat (map invoke ops))"
    using assms(2,3) after by simp
  have "enableConnections cfg arts sel (es @ [Task i x]) =
      (Patching (map (\<lambda>p. Running (Job p InFlight)) ops),
       tr @ In (Task i x) # map Out (acts @ concat (map invoke ops)))"
    unfolding enableConnections_snoc assms(1) advance_def using st by simp
  then have "enableConnections cfg arts sel (es @ [Task i x]) =
      (Patching (map (\<lambda>(ident, patch). Running (Job (Patch ''connections'' ident patch) InFlight)) ps),
       tr @ In (Task i x) # map Out acts
         @ map (\<lambda>(ident, patch). Out (Call (Patch ''connections'' ident patch))) ps)"
    unfolding calls slots' by (simp add: map_map comp_def case_prod_unfold)
  then show ?thesis using derived unfolding ps_def by simp
qed

theorem enableConnections_derives_patches_witness:
  "enableConnections example_config
     \<lparr>portal = JObj [(''client_id'', JStr ''p'')], backend = JObj [(''client_id'', JStr ''b'')],
      api = JUndefined, rule = JUndefined, mgmt_grant = JUndefined\<rparr>
     example_selection
     ([Task 0 (Response (Fulfilled (example_connection ''con_1'' ''ad''))),
       Task 1 (Response (Fulfilled (example_connection ''con_2'' ''sms'')))]
      @ [Task 2 (Response (Fulfilled (example_connection ''con_3'' ''email'')))])
   = (Patching
        [Running (Job (Patch ''connections'' (JStr ''con_1'')
            (JObj [(''enabled_clients'', JArr [JStr ''x'', JStr ''p'', JStr ''b'']),
                   (''metadata'', JObj [(''username_field_name'', JStr ''sAMAccountName'')])]))
          InFlight),
         Running (Job (Patch ''connections'' (JStr ''con_2'')
            (JObj [(''enabled_clients'', JArr [JStr ''x'', JStr ''p'', JStr ''b'']),
                   (''metadata'', JObj [])]))
          InFlight),
         Running (Job (Patch ''connections'' (JStr ''con_3'')
            (JObj [(''enabled_clients'', JArr [JStr ''x'', JStr ''p'', JStr ''b'']),
                   (''metadata'', JObj [])]))
          InFlight)],
      [Out (Call (Get ''connections'' (JStr ''con_1''))),
       Out (Call (Get ''connections'' (JStr ''con_2''))),
       Out (Call (Get ''connections'' (JStr ''con_3''))),
       In (Task 0 (Response (Fulfilled (example_connection ''con_1'' ''ad'')))),
       In (Task 1 (Response (Fulfilled (example_connection ''con_2'' ''sms'')))),
       In (Task 2 (Response (Fulfilled (example_connection ''con_3'' ''email'')))),
       Out (Call (Patch ''connections'' (JStr ''con_1'')
            (JObj [(''enabled_clients'', JArr [JStr ''x'', JStr ''p'', JStr ''b'']),
                   (''metadata'', JObj [(''username_field_name'', JStr ''sAMAccountName'')])]))),
       Out (Call (Patch ''connections'' (JStr ''con_2'')
            (JObj [(''enabled_clients'', JArr [JStr ''x'', JStr ''p'', JStr ''b'']),
                   (''metadata'', JObj [])]))),
       Out (Call (Patch ''connections'' (JStr ''con_3'')
            (JObj [(''enabled_clients'', JArr [JStr ''x'', JStr ''p'', JStr ''b'']),
                   (''metadata'', JObj [])])))])"
proof -
  let ?arts = "\<lparr>portal = JObj [(''client_id'', JStr ''p'')],
      backend = JObj [(''client_id'', JStr ''b'')],
      api = JUndefined, rule = JUndefined, mgmt_grant = JUndefined\<rparr>"
  let ?kvs = "\<lambda>ident strategy. [(''id'', JStr ident), (''strategy'', JStr strategy),
           (''enabled_clients'', JArr [JStr ''x''])]"
  let ?slots = "[Running (Job (Get ''connections'' (JStr ''con_1''))
                    (Settled (example_connection ''con_1'' ''ad''))),
                 Running (Job (Get ''connections'' (JStr ''con_2''))
                    (Settled (example_connection ''con_2'' ''sms''))),
                 Running (Job (Get ''connections'' (JStr ''con_3'')) InFlight)]"
  let ?last = "Running (Job (Get ''connections'' (JStr ''con_3''))
                    (Settled (example_connection ''con_3'' ''email'')))"
  have run: "enableConnections example_config ?arts example_selection
     [Task 0 (Response (Fulfilled (example_connection ''con_1'' ''ad''))),
      Task 1 (Response (Fulfilled (example_connection ''con_2'' ''sms'')))]
    = (Fetching ?slots,
       [Out (Call (Get ''connections'' (JStr ''con_1''))),
        Out (Call (Get ''connections'' (JStr ''con_2''))),
        Out (Call (Get ''connections'' (JStr ''con_3''))),
        In (Task 0 (Response (Fulfilled (example_connection ''con_1'' ''ad'')))),
        In (Task 1 (Response (Fulfilled (example_connection ''con_2'' ''sms''))))])"
    by (simp add: enableConnections_def enableConnections_start_def start_all_def launch_def
        await_all_def and_then_def example_selection_def advance_def after_fetch_def)
  have i: "2 < length ?slots" by simp
  have last: "slot_step example_config (?slots ! 2)
      (Response (Fulfilled (example_connection ''con_3'' ''email''))) = Some (?last, [])"
    by simp
  have all: "results (?slots[2 := ?last]) =
      Some (map JObj [?kvs ''con_1'' ''ad'', ?kvs ''con_2'' ''sms'', ?kvs ''con_3'' ''email''])"
    by (simp add: example_connection_def)
  have priors: "map (\<lambda>kvs. own_property kvs ''enabled_clients'')
      [?kvs ''con_1'' ''ad'', ?kvs ''con_2'' ''sms'', ?kvs ''con_3'' ''email'']
      = map JArr [[JStr ''x''], [JStr ''x''], [JStr ''x'']]"
    by (simp add: own_property_def)
  have idents: "map (\<lambda>kvs. own_property kvs ''id'')
      [?kvs ''con_1'' ''ad'', ?kvs ''con_2'' ''sms'', ?kvs ''con_3'' ''email'']
      = map JStr [''con_1'', ''con_2'', ''con_3'']"
    by (simp add: own_property_def)
  have p: "getprop (portal ?arts) ''client_id'' = Inr (JStr ''p'')"
    by (simp add: own_property_def)
  have b: "getprop (backend ?arts) ''client_id'' = Inr (JStr ''b'')"
    by (simp add: own_property_def)
  show ?thesis
    using enableConnections_derives_patches [OF run i last all priors idents p b]
    by (simp add: spec_patch_def own_property_def)
qed

text \<open>
  C10. When the occurrence that completes the fetch phase of \<open>enableConnections\<close> leaves
  \<open>undefined\<close> among the fetched connections (a fetch that \<open>handleError\<close> swallowed), the
  function throws a TypeError at once; whatever happens afterwards changes nothing, and
  the whole run holds no patch call.
\<close>

theorem undefined_fetch_throws_before_patching:
  assumes "enableConnections cfg arts sel es = (Fetching slots, tr)"
    and "i < length slots"
    and "slot_step cfg (slots ! i) x = Some (sl, acts)"
    and "results (slots[i := sl]) = Some cons"
    and "JUndefined \<in> set cons"
  shows "enableConnections cfg arts sel (es @ Task i x # es') =
           (EThrew TypeError, tr @ In (Task i x) # map Out acts)
       \<and> filter is_patch_call (snd (enableConnections cfg arts sel (es @ Task i x # es'))) = []"
proof -
  have inv: "(\<forall>sl \<in> set slots. fetching sl) \<and> (\<forall>t \<in> set tr. \<not> is_patch_call t)"
    using assms(1) by (rule fetching_invariant)
  then have "fetching (slots ! i)" using assms(2) by simp
  from fetching_step [OF this assms(3)]
  have quiet: "\<forall>t \<in> set (map Out acts). \<not> is_patch_call t" by simp
  have "after_fetch cfg arts (slots[i := sl]) = (EThrew TypeError, [])"
    using assms(4) patches_undefined [OF assms(5)] by (simp add: after_fetch_def)
  then have st: "estep cfg arts (Fetching slots) (Task i x) = Some (EThrew TypeError, acts)"
    using assms(2,3) by simp
  have one: "advance (estep cfg arts) (enableConnections cfg arts sel es) (Task i x) =
      (EThrew TypeError, tr @ In (Task i x) # map Out acts)"
    unfolding assms(1) advance_def using st by simp
  have run: "enableConnections cfg arts sel (es @ Task i x # es') =
      (EThrew TypeError, tr @ In (Task i x) # map Out acts)"
    unfolding enableConnections_append one by (rule advance_stuck) (rule estep_EThrew)
  show ?thesis unfolding run using inv quiet by (simp add: filter_empty_conv)
qed

theorem undefined_fetch_throws_before_patching_witness:
  "enableConnections example_config example_artefacts example_selection
     ([Task 0 (Response (Fulfilled (example_connection ''con_1'' ''ad''))),
       Task 1 (Response (Rejected (RemoteCallFailure (Some 500) ''boom'')))]
      @ Task 2 (Response (Fulfilled (example_connection ''con_3'' ''email'')))
      # [Task 1 Timeout, Task 1 (Response (Fulfilled (example_connection ''con_2'' ''sms'')))])
   = (EThrew TypeError,
      [Out (Call (Get ''connections'' (JStr ''con_1''))),
       Out (Call (Get ''connections'' (JStr ''con_2''))),
       Out (Call (Get ''connections'' (JStr ''con_3''))),
       In (Task 0 (Response (Fulfilled (example_connection ''con_1'' ''ad'')))),
       In (Task 1 (Response (Rejected (RemoteCallFailure (Some 500) ''boom'')))),
       Out (LogError (RemoteCallFailure (Some 500) ''boom''))]
      @ In (Task 2 (Response (Fulfilled (example_connection ''con_3'' ''email'')))) # map Out [])"
proof -
  let ?slots = "[Running (Job (Get ''connections'' (JStr ''con_1''))
                    (Settled (example_connection ''con_1'' ''ad''))),
                 Running (Job (Get ''connections'' (JStr ''con_2'')) (Settled JUndefined)),
                 Running (Job (Get ''connections'' (JStr ''con_3'')) InFlight)]"
  let ?last = "Running (Job (Get ''connections'' (JStr ''con_3''))
                    (Settled (example_connection ''con_3'' ''email'')))"
  have run: "enableConnections example_config example_artefacts example_selection
     [Task 0 (Response (Fulfilled (example_connection ''con_1'' ''ad''))),
      Task 1 (Response (Rejected (RemoteCallFailure (Some 500) ''boom'')))]
    = (Fetching ?slots,
       [Out (Call (Get ''connections'' (JStr ''con_1''))),
        Out (Call (Get ''connections'' (JStr ''con_2''))),
        Out (Call (Get ''connections'' (JStr ''con_3''))),
        In (Task 0 (Response (Fulfilled (example_connection ''con_1'' ''ad'')))),
        In (Task 1 (Response (Rejected (RemoteCallFailure (Some 500) ''boom'')))),
        Out (LogError (RemoteCallFailure (Some 500) ''boom''))])"
    by (simp add: enableConnections_def enableConnections_start_def start_all_def launch_def
        await_all_def and_then_def example_selection_def advance_def after_fetch_def
        handleError_def)
  have i: "2 < length ?slots" by simp
  have last: "slot_step example_config (?slots ! 2)
      (Response (Fulfilled (example_connection ''con_3'' ''email''))) = Some (?last, [])"
    by simp
  have all: "results (?slots[2 := ?last]) =
      Some [example_connection ''con_1'' ''ad'', JUndefined, example_connection ''con_3'' ''email'']"
    by simp
  have undef: "JUndefined \<in>
      set [example_connection ''con_1'' ''ad'', JUndefined, example_connection ''con_3'' ''email'']"
    by simp
  show ?thesis
    using undefined_fetch_throws_before_patching [OF run i last all undef]
    by simp
qed

section \<open>Properties of the environment emitter\<close>

lemma lines_from_line:
  "CHR 0x0A \<notin> set a \<Longrightarrow> lines_from cur (a @ newline @ rest) = (cur @ a) # lines_from [] rest"
  by (induction a arbitrary: cur) (auto simp add: newline_def)

lemma lines_line:
  "CHR 0x0A \<notin> set a \<Longrightarrow> lines (a @ newline @ rest) = a # lines rest"
  by (simp add: lines_def lines_from_line)

lemma lines_three:
  assumes "CHR 0x0A \<notin> set a" "CHR 0x0A \<notin> set b" "CHR 0x0A \<notin> set c"
  shows "lines (a @ newline @ b @ newline @ c @ newline) = [a, b, c]"
  using assms lines_line [of c "[]"] by (simp add: lines_line) (simp add: lines_def)

lemma lines_four:
  assumes "CHR 0x0A \<notin> set a" "CHR 0x0A \<notin> set b" "CHR 0x0A \<notin> set c" "CHR 0x0A \<notin> set d"
  shows "lines (a @ newline @ b @ newline @ c @ newline @ d @ newline) = [a, b, c, d]"
  using assms lines_line [of d "[]"] by (simp add: lines_line) (simp add: lines_def)

text \<open>
  C6. For artefacts whose portal client has the id \<open>p\<close> and whose backend client has the
  id \<open>b\<close> and the secret \<open>s\<close> (strings, like the domain free of line breaks),
  \<open>generateEnv\<close> produces a front-end block whose lines are exactly
  \<open>REACT_APP_domain=\<close>domain, \<open>REACT_APP_clientID=\<close>p and
  \<open>REACT_APP_audience=urn:self-service-portal-api\<close>, and a back-end block whose lines
  are exactly \<open>NON_INTERACTIVE_CLIENT_ID=\<close>b, \<open>NON_INTERACTIVE_CLIENT_SECRET=\<close>s,
  \<open>DOMAIN=\<close>domain and \<open>AUDIENCE=urn:self-service-portal-api\<close>.
\<close>

theorem generateEnv_blocks:
  assumes "getprop (portal arts) ''client_id'' = Inr (JStr p)"
    and "getprop (backend arts) ''client_id'' = Inr (JStr b)"
    and "getprop (backend arts) ''client_secret'' = Inr (JStr s)"
    and "CHR 0x0A \<notin> set (domain cfg) \<union> set p \<union> set b \<union> set s"
  shows "(case generateEnv cfg arts of
            Inl err \<Rightarrow> False
          | Inr (client_env, server_env) \<Rightarrow>
              lines client_env =
                [''REACT_APP_domain='' @ domain cfg,
                 ''REACT_APP_clientID='' @ p,
                 ''REACT_APP_audience=urn:self-service-portal-api'']
              \<and> lines server_env =
                [''NON_INTERACTIVE_CLIENT_ID='' @ b,
                 ''NON_INTERACTIVE_CLIENT_SECRET='' @ s,
                 ''DOMAIN='' @ domain cfg,
                 ''AUDIENCE=urn:self-service-portal-api''])"
proof -
  have nl: "CHR 0x0A \<notin> set (domain cfg)" "CHR 0x0A \<notin> set p" "CHR 0x0A \<notin> set b"
    "CHR 0x0A \<notin> set s"
    using assms(4) by auto
  have c: "lines ((''REACT_APP_domain='' @ domain cfg) @ newline
            @ (''REACT_APP_clientID='' @ p) @ newline
            @ ''REACT_APP_audience=urn:self-service-portal-api'' @ newline) =
                [''REACT_APP_domain='' @ domain cfg,
                 ''REACT_APP_clientID='' @ p,
                 ''REACT_APP_audience=urn:self-service-portal-api'']"
    by (rule lines_three) (simp_all add: nl)
  have s: "lines ((''NON_INTERACTIVE_CLIENT_ID='' @ b) @ newline
            @ (''NON_INTERACTIVE_CLIENT_SECRET='' @ s) @ newline
            @ (''DOMAIN='' @ domain cfg) @ newline
            @ ''AUDIENCE=urn:self-service-portal-api'' @ newline) =
                [''NON_INTERACTIVE_CLIENT_ID='' @ b,
                 ''NON_INTERACTIVE_CLIENT_SECRET='' @ s,
                 ''DOMAIN='' @ domain cfg,
                 ''AUDIENCE=urn:self-service-portal-api'']"
    by (rule lines_four) (simp_all add: nl)
  have g: "generateEnv cfg arts =
     Inr ((''REACT_APP_domain='' @ domain cfg) @ newline
            @ (''REACT_APP_clientID='' @ p) @ newline
            @ ''REACT_APP_audience=urn:self-service-portal-api'' @ newline,
          (''NON_INTERACTIVE_CLIENT_ID='' @ b) @ newline
            @ (''NON_INTERACTIVE_CLIENT_SECRET='' @ s) @ newline
            @ (''DOMAIN='' @ domain cfg) @ newline
            @ ''AUDIENCE=urn:self-service-portal-api'' @ newline)"
    using assms(1-3) by (simp add: generateEnv_def and_then_def)
  show ?thesis
    unfolding g using c s by (simp only: sum.case prod.case)
qed

theorem generateEnv_blocks_witness:
  "generateEnv \<lparr>domain = ''t.example.com'', token = ''tok'', portal_url = ''https://portal''\<rparr>
     \<lparr>portal = JObj [(''client_id'', JStr ''P1'')],
      backend = JObj [(''client_id'', JStr ''B1''), (''client_secret'', JStr ''S1'')],
      api = JUndefined, rule = JUndefined, mgmt_grant = JUndefined\<rparr>
   = Inr (''REACT_APP_domain=t.example.com'' @ newline
            @ ''REACT_APP_clientID=P1'' @ newline
            @ ''REACT_APP_audience=urn:self-service-portal-api'' @ newline,
          ''NON_INTERACTIVE_CLIENT_ID=B1'' @ newline
            @ ''NON_INTERACTIVE_CLIENT_SECRET=S1'' @ newline
            @ ''DOMAIN=t.example.com'' @ newline
            @ ''AUDIENCE=urn:self-service-portal-api'' @ newline)
   \<and> lines (''REACT_APP_domain=t.example.com'' @ newline
            @ ''REACT_APP_clientID=P1'' @ newline
            @ ''REACT_APP_audience=urn:self-service-portal-api'' @ newline)
       = [''REACT_APP_domain=t.example.com'', ''REACT_APP_clientID=P1'',
          ''REACT_APP_audience=urn:self-service-portal-api'']
   \<and> lines (''NON_INTERACTIVE_CLIENT_ID=B1'' @ newline
            @ ''NON_INTERACTIVE_CLIENT_SECRET=S1'' @ newline
            @ ''DOMAIN=t.example.com'' @ newline
            @ ''AUDIENCE=urn:self-service-portal-api'' @ newline)
       = [''NON_INTERACTIVE_CLIENT_ID=B1'', ''NON_INTERACTIVE_CLIENT_SECRET=S1'',
          ''DOMAIN=t.example.com'', ''AUDIENCE=urn:self-service-portal-api'']"
proof -
  have g: "generateEnv
     \<lparr>domain = ''t.example.com'', token = ''tok'', portal_url = ''https://portal''\<rparr>
     \<lparr>portal = JObj [(''client_id'', JStr ''P1'')],
      backend = JObj [(''client_id'', JStr ''B1''), (''client_secret'', JStr ''S1'')],
      api = JUndefined, rule = JUndefined, mgmt_grant = JUndefined\<rparr>
   = Inr (''REACT_APP_domain=t.example.com'' @ newline
            @ ''REACT_APP_clientID=P1'' @ newline
            @ ''REACT_APP_audience=urn:self-service-portal-api'' @ newline,
          ''NON_INTERACTIVE_CLIENT_ID=B1'' @ newline
            @ ''NON_INTERACTIVE_CLIENT_SECRET=S1'' @ newline
            @ ''DOMAIN=t.example.com'' @ newline
            @ ''AUDIENCE=urn:self-service-portal-api'' @ newline)"
    by (simp add: generateEnv_def and_then_def own_property_def)
  show ?thesis
    using generateEnv_blocks
      [of "\<lparr>portal = JObj [(''client_id'', JStr ''P1'')],
            backend = JObj [(''client_id'', JStr ''B1''), (''client_secret'', JStr ''S1'')],
            api = JUndefined, rule = JUndefined, mgmt_grant = JUndefined\<rparr>"
          "''P1''" "''B1''" "''S1''"
          "\<lparr>domain = ''t.example.com'', token = ''tok'', portal_url = ''https://portal''\<rparr>"]
    unfolding g by (simp add: own_property_def)
qed

end
